theory Spec2Isabelle
  imports Main
begin

section \<open>Data model (prisma/schema.prisma)\<close>

text \<open>
  Only the columns that the verified operations read or write are kept. Prisma's \<open>Int\<close>
  is a 32-bit integer column: values are integers, and an update that would take a counter
  past \<open>maxInt32\<close> is refused by the database (the call throws). The token estimates of a
  message stay far below that bound, a JavaScript string being shorter than \<open>2^30\<close> code
  units. A JavaScript string is a list of characters, one \<open>char\<close> per code unit.
\<close>

definition maxInt32 :: int where
  "maxInt32 = 2147483647"

text \<open>The values of \<open>enum MessageType\<close>, the type of the column \<open>Message.type\<close>.\<close>

definition messageTypes :: "string list" where
  "messageTypes = [''TEXT'', ''IMAGE'', ''FILE'', ''SYSTEM'']"

datatype ChatRoomRole = OWNER | ADMIN | MODERATOR | MEMBER

datatype MessageSender = USER | AI | SYSTEM

record Subscription =
  monthlyMessageLimit :: int
  messagesUsed :: int

text \<open>
  \<open>Subscription.userId\<close> is unique and references \<open>User\<close>, so a user has at most one
  subscription and a subscription never exists without its user: it is a field of the user.
\<close>

record User =
  messageCount :: int
  subscription :: "Subscription option"

record ChatRoom =
  allowAI :: bool

record ChatRoomMember =
  cm_id :: string
  cm_userId :: string
  cm_chatRoomId :: string
  cm_role :: ChatRoomRole

record Message =
  m_content :: string
  m_type :: string
  m_sender :: MessageSender
  m_userId :: "string option"
  m_chatRoomId :: string
  m_aiModel :: "string option"
  m_promptTokens :: "nat option"
  m_completionTokens :: "nat option"

text \<open>The database: one table per model, the message log in creation order.\<close>

record db =
  users :: "string \<rightharpoonup> User"
  chatRooms :: "string \<rightharpoonup> ChatRoom"
  chatRoomMembers :: "ChatRoomMember list"
  messages :: "Message list"

text \<open>
  What lies outside the repository: the generation provider (\<open>generateContent\<close> of a model
  on a prompt; \<open>None\<close> when the call throws) and whether the read of the user row in
  \<open>checkUsageQuota\<close> throws.
\<close>

record env =
  generateContent :: "string \<Rightarrow> string \<Rightarrow> string option"
  userReadFails :: bool

section \<open>GeminiService (services/geminiService)\<close>

text \<open>
  A turn of a conversation. The code tests \<open>role === 'user'\<close> only, so \<open>RoleAssistant\<close>
  stands for every other role.
\<close>

datatype TurnRole = RoleUser | RoleAssistant

record ChatMessage =
  role :: TurnRole
  content :: string

record ChatOptions =
  opt_model :: "string option"
  systemPrompt :: "string option"

record ChatResponse =
  r_content :: string
  r_promptTokens :: nat
  r_completionTokens :: nat
  r_model :: string

datatype Error = Error string

definition nl :: string where
  "nl = [CHR 0x0A]"

definition defaultModel :: string where
  "defaultModel = ''gemini-pro''"

text \<open>\<open>Math.ceil(n / 4)\<close> on a length.\<close>

definition ceil4 :: "nat \<Rightarrow> nat" where
  "ceil4 n = (n + 3) div 4"

text \<open>
  \<open>systemPrompt ? `${systemPrompt}\n\nUser: ${prompt}` : prompt\<close>: an absent and an empty
  system prompt are both falsy.
\<close>

definition fullPrompt :: "string option \<Rightarrow> string \<Rightarrow> string" where
  "fullPrompt sp prompt =
     (case sp of
        None \<Rightarrow> prompt
      | Some s \<Rightarrow> if s = [] then prompt else s @ nl @ nl @ ''User: '' @ prompt)"

definition generateResponse :: "env \<Rightarrow> string \<Rightarrow> ChatOptions \<Rightarrow> Error + ChatResponse" where
  "generateResponse e prompt options =
     (let model = (case opt_model options of None \<Rightarrow> defaultModel | Some m \<Rightarrow> m);
          fp = fullPrompt (systemPrompt options) prompt
      in case generateContent e model fp of
           None \<Rightarrow> Inl (Error ''Failed to generate AI response'')
         | Some text \<Rightarrow>
             Inr \<lparr> r_content = text,
                   r_promptTokens = ceil4 (length fp),
                   r_completionTokens = ceil4 (length text),
                   r_model = model \<rparr>)"

text \<open>\<open>Array.prototype.join\<close> with a separator.\<close>

fun join :: "string \<Rightarrow> string list \<Rightarrow> string" where
  "join sep [] = []"
| "join sep [x] = x"
| "join sep (x # y # ys) = x @ sep @ join sep (y # ys)"

definition turnLine :: "ChatMessage \<Rightarrow> string" where
  "turnLine msg = (if role msg = RoleUser then ''User'' else ''Assistant'') @ '': '' @ content msg"

definition conversationHistory :: "ChatMessage list \<Rightarrow> string" where
  "conversationHistory msgs = join nl (map turnLine msgs)"

text \<open>\<open>messages.filter(msg => msg.role === 'user').pop()?.content || ''\<close>\<close>

definition lastUserMessage :: "ChatMessage list \<Rightarrow> string" where
  "lastUserMessage msgs =
     (case rev (filter (\<lambda>msg. role msg = RoleUser) msgs) of
        [] \<Rightarrow> []
      | m # _ \<Rightarrow> content m)"

definition chatPrompt :: "ChatMessage list \<Rightarrow> string" where
  "chatPrompt msgs = conversationHistory msgs @ nl @ ''User: '' @ lastUserMessage msgs"

definition generateChatResponse ::
  "env \<Rightarrow> ChatMessage list \<Rightarrow> ChatOptions \<Rightarrow> Error + ChatResponse" where
  "generateChatResponse e msgs options =
     (case generateResponse e (chatPrompt msgs) options of
        Inl _ \<Rightarrow> Inl (Error ''Failed to generate chat response'')
      | Inr r \<Rightarrow> Inr r)"

record Quota =
  canUse :: bool
  remaining :: int

definition checkUsageQuota :: "env \<Rightarrow> db \<Rightarrow> string \<Rightarrow> Quota" where
  "checkUsageQuota e d uid =
     (if userReadFails e then \<lparr> canUse = False, remaining = 0 \<rparr>
      else case users d uid of
        None \<Rightarrow> \<lparr> canUse = False, remaining = 0 \<rparr>
      | Some u \<Rightarrow>
          (case subscription u of
             None \<Rightarrow> \<lparr> canUse = False, remaining = 0 \<rparr>
           | Some s \<Rightarrow>
               (let rem = monthlyMessageLimit s - messagesUsed s
                in \<lparr> canUse = (rem > 0), remaining = max 0 rem \<rparr>)))"

text \<open>
  Two awaited updates, one after the other and not in a transaction: first the
  subscription's \<open>messagesUsed\<close>, then the user's \<open>messageCount\<close>. An update throws when
  its row does not exist or when the increment would leave the column's range; the error
  is rethrown as \<open>Failed to update usage statistics\<close>. When the second update throws,
  the first one stays written: the function returns its outcome together with the
  database it leaves.
\<close>

definition usageError :: Error where
  "usageError = Error ''Failed to update usage statistics''"

definition incrementUsage :: "db \<Rightarrow> string \<Rightarrow> (Error + unit) \<times> db" where
  "incrementUsage d uid =
     (case users d uid of
        None \<Rightarrow> (Inl usageError, d)
      | Some u \<Rightarrow>
          (case subscription u of
             None \<Rightarrow> (Inl usageError, d)
           | Some s \<Rightarrow>
               if maxInt32 < messagesUsed s + 1 then (Inl usageError, d)
               else
                 (let u1 = u\<lparr> subscription := Some (s\<lparr> messagesUsed := messagesUsed s + 1 \<rparr>) \<rparr>;
                      d1 = d\<lparr> users := (users d)(uid \<mapsto> u1) \<rparr>
                  in if maxInt32 < messageCount u1 + 1 then (Inl usageError, d1)
                     else (Inr (),
                           d1\<lparr> users := (users d1)(uid \<mapsto>
                                 u1\<lparr> messageCount := messageCount u1 + 1 \<rparr>) \<rparr>))))"

section \<open>Shared database helpers\<close>

text \<open>\<open>prisma.chatRoomMember.findFirst({ where: { userId, chatRoomId } })\<close>\<close>

definition findMembership :: "db \<Rightarrow> string \<Rightarrow> string \<Rightarrow> ChatRoomMember option" where
  "findMembership d uid rid =
     find (\<lambda>m. cm_userId m = uid \<and> cm_chatRoomId m = rid) (chatRoomMembers d)"

text \<open>
  \<open>prisma.message.create\<close>. The call throws when the type is not a value of
  \<open>enum MessageType\<close>, when the room (a required foreign key) does not exist, and when
  the message names an author (an optional foreign key) who does not exist.
\<close>

definition createMessage :: "db \<Rightarrow> Message \<Rightarrow> Error + db" where
  "createMessage d msg =
     (if m_type msg \<notin> set messageTypes
      then Inl (Error ''Invalid value for argument type'')
      else case chatRooms d (m_chatRoomId msg) of
        None \<Rightarrow> Inl (Error ''Foreign key constraint failed'')
      | Some _ \<Rightarrow>
          (case m_userId msg of
             None \<Rightarrow> Inr (d\<lparr> messages := messages d @ [msg] \<rparr>)
           | Some author \<Rightarrow>
               if users d author = None then Inl (Error ''Foreign key constraint failed'')
               else Inr (d\<lparr> messages := messages d @ [msg] \<rparr>)))"

definition aiMessageOf :: "string \<Rightarrow> ChatResponse \<Rightarrow> Message" where
  "aiMessageOf rid r =
     \<lparr> m_content = r_content r, m_type = ''TEXT'', m_sender = AI, m_userId = None,
       m_chatRoomId = rid, m_aiModel = Some (r_model r),
       m_promptTokens = Some (r_promptTokens r),
       m_completionTokens = Some (r_completionTokens r) \<rparr>"

definition personaPrompt :: string where
  "personaPrompt = ''You are a helpful AI assistant in a chat room. Be concise and friendly.''"

section \<open>HTTP routes (routes/chat)\<close>

datatype ApiError = ApiError nat string

text \<open>
  The handler of \<open>POST /:chatRoomId/ai-chat\<close>, reached once the authentication,
  validation and rate-limit middleware have let the request through: \<open>req_user\<close> is the
  authenticated user's id. \<open>req_message\<close> is empty when the field is absent (both are
  falsy), \<open>req_context\<close> is \<open>None\<close> unless the field is an array.
\<close>

record AiChatRequest =
  req_user :: string
  req_chatRoomId :: string
  req_message :: string
  req_context :: "ChatMessage list option"
  req_model :: "string option"

record AiChatResult =
  res_message :: Message
  res_remaining :: int
  res_promptTokens :: nat
  res_completionTokens :: nat

definition reqModel :: "AiChatRequest \<Rightarrow> string" where
  "reqModel rq = (case req_model rq of None \<Rightarrow> ''gemini-pro'' | Some m \<Rightarrow> m)"

text \<open>
  The route up to and including the quota check: what it reads before generating. The
  membership is fetched together with its room; the foreign key excludes a membership
  without a room, and the model keeps that branch as the 500 that the failing property
  access would end in.
\<close>

definition aiChatCheck :: "env \<Rightarrow> db \<Rightarrow> AiChatRequest \<Rightarrow> ApiError + Quota" where
  "aiChatCheck e d rq =
     (if req_message rq = [] then Inl (ApiError 400 ''Message content is required'')
      else case findMembership d (req_user rq) (req_chatRoomId rq) of
        None \<Rightarrow> Inl (ApiError 404 ''Chat room not found or access denied'')
      | Some membership \<Rightarrow>
          (case chatRooms d (cm_chatRoomId membership) of
             None \<Rightarrow> Inl (ApiError 500 ''Internal server error'')
           | Some room \<Rightarrow>
               if \<not> allowAI room
               then Inl (ApiError 403 ''AI is not enabled for this chat room'')
               else (let quota = checkUsageQuota e d (req_user rq)
                     in if \<not> canUse quota
                        then Inl (ApiError 429
                          ''AI usage quota exceeded. Please upgrade your subscription.'')
                        else Inr quota)))"

text \<open>The generation step of the route: with a context array, or a single message.\<close>

definition aiChatGenerate :: "env \<Rightarrow> AiChatRequest \<Rightarrow> Error + ChatResponse" where
  "aiChatGenerate e rq =
     (case req_context rq of
        Some ctx \<Rightarrow>
          generateChatResponse e
            (ctx @ [\<lparr> role = RoleUser, content = req_message rq \<rparr>])
            \<lparr> opt_model = Some (reqModel rq), systemPrompt = None \<rparr>
      | None \<Rightarrow>
          generateResponse e (req_message rq)
            \<lparr> opt_model = Some (reqModel rq), systemPrompt = Some personaPrompt \<rparr>)"

text \<open>
  The \<open>try\<close> block of the route, run with the quota snapshot taken by the check: generate,
  save the assistant message, increment the usage, answer. Any throw inside becomes the
  500 of the \<open>catch\<close>; what was written before the throw stays written.
\<close>

definition aiChatCommit ::
  "env \<Rightarrow> db \<Rightarrow> AiChatRequest \<Rightarrow> Quota \<Rightarrow> (ApiError + AiChatResult) \<times> db" where
  "aiChatCommit e d rq quota =
     (case aiChatGenerate e rq of
        Inl _ \<Rightarrow> (Inl (ApiError 500 ''Failed to generate AI response''), d)
      | Inr aiResponse \<Rightarrow>
          (let aiMessage = aiMessageOf (req_chatRoomId rq) aiResponse
           in case createMessage d aiMessage of
                Inl _ \<Rightarrow> (Inl (ApiError 500 ''Failed to generate AI response''), d)
              | Inr d1 \<Rightarrow>
                  (case incrementUsage d1 (req_user rq) of
                     (Inl _, d2) \<Rightarrow> (Inl (ApiError 500 ''Failed to generate AI response''), d2)
                   | (Inr _, d2) \<Rightarrow>
                       (Inr \<lparr> res_message = aiMessage,
                              res_remaining = remaining quota - 1,
                              res_promptTokens = r_promptTokens aiResponse,
                              res_completionTokens = r_completionTokens aiResponse \<rparr>,
                        d2))))"

definition aiChatRoute :: "env \<Rightarrow> db \<Rightarrow> AiChatRequest \<Rightarrow> (ApiError + AiChatResult) \<times> db" where
  "aiChatRoute e d rq =
     (case aiChatCheck e d rq of
        Inl err \<Rightarrow> (Inl err, d)
      | Inr quota \<Rightarrow> aiChatCommit e d rq quota)"

text \<open>
  Invocations one after the other, each on the database the previous one left; every call
  comes with the outside world it runs in.
\<close>

fun runAiChat ::
  "db \<Rightarrow> (env \<times> AiChatRequest) list \<Rightarrow> (ApiError + AiChatResult) list \<times> db" where
  "runAiChat d [] = ([], d)"
| "runAiChat d (c # cs) =
     (case aiChatRoute (fst c) d (snd c) of
        (res, d1) \<Rightarrow> (case runAiChat d1 cs of (rs, d2) \<Rightarrow> (res # rs, d2)))"

definition isSuccess :: "ApiError + AiChatResult \<Rightarrow> bool" where
  "isSuccess r = (case r of Inl _ \<Rightarrow> False | Inr _ \<Rightarrow> True)"

text \<open>
  An invocation that only the quota can stop: made by \<open>uid\<close> with a message, in a room
  that exists, has the assistant enabled and has \<open>uid\<close> as a member, with the user row
  readable and the provider answering.
\<close>

definition servable :: "db \<Rightarrow> string \<Rightarrow> env \<times> AiChatRequest \<Rightarrow> bool" where
  "servable d uid c =
     (req_user (snd c) = uid \<and> req_message (snd c) \<noteq> [] \<and> \<not> userReadFails (fst c)
      \<and> (case aiChatGenerate (fst c) (snd c) of Inl _ \<Rightarrow> False | Inr _ \<Rightarrow> True)
      \<and> findMembership d uid (req_chatRoomId (snd c)) \<noteq> None
      \<and> (case chatRooms d (req_chatRoomId (snd c)) of
            None \<Rightarrow> False
          | Some room \<Rightarrow> allowAI room))"

definition quotaExceeded :: ApiError where
  "quotaExceeded = ApiError 429 ''AI usage quota exceeded. Please upgrade your subscription.''"

text \<open>
  Invocations that overlap. The route awaits the provider between its quota check and its
  usage increment, so another invocation can run in between: a schedule is a list of
  steps, \<open>Check i\<close> running invocation \<open>i\<close> up to its quota check and \<open>Commit i\<close> running
  the rest of it.
\<close>

datatype SchedStep = Check nat | Commit nat

record SchedState =
  s_db :: db
  s_pending :: "nat \<rightharpoonup> Quota"
  s_done :: "nat \<rightharpoonup> (ApiError + AiChatResult)"

definition schedStep :: "env \<Rightarrow> AiChatRequest list \<Rightarrow> SchedState \<Rightarrow> SchedStep \<Rightarrow> SchedState" where
  "schedStep e rqs st step =
     (case step of
        Check i \<Rightarrow>
          if i < length rqs \<and> s_pending st i = None \<and> s_done st i = None
          then (case aiChatCheck e (s_db st) (rqs ! i) of
                  Inl err \<Rightarrow> st\<lparr> s_done := (s_done st)(i \<mapsto> Inl err) \<rparr>
                | Inr quota \<Rightarrow> st\<lparr> s_pending := (s_pending st)(i \<mapsto> quota) \<rparr>)
          else st
      | Commit i \<Rightarrow>
          (case s_pending st i of
             None \<Rightarrow> st
           | Some quota \<Rightarrow>
               if i < length rqs
               then (case aiChatCommit e (s_db st) (rqs ! i) quota of
                       (res, d1) \<Rightarrow>
                         \<lparr> s_db = d1,
                           s_pending = (s_pending st)(i := None),
                           s_done = (s_done st)(i \<mapsto> res) \<rparr>)
               else st))"

definition runSchedule :: "env \<Rightarrow> AiChatRequest list \<Rightarrow> db \<Rightarrow> SchedStep list \<Rightarrow> SchedState" where
  "runSchedule e rqs d steps =
     foldl (schedStep e rqs) \<lparr> s_db = d, s_pending = Map.empty, s_done = Map.empty \<rparr> steps"

text \<open>\<open>POST /:chatRoomId/leave\<close>\<close>

definition leaveRoute :: "db \<Rightarrow> string \<Rightarrow> string \<Rightarrow> (ApiError + string) \<times> db" where
  "leaveRoute d uid rid =
     (case findMembership d uid rid of
        None \<Rightarrow> (Inl (ApiError 404 ''Not a member of this chat room''), d)
      | Some membership \<Rightarrow>
          if cm_role membership = OWNER
          then (Inl (ApiError 400 ''Room owner cannot leave. Please transfer ownership first.''), d)
          else (Inr ''Successfully left chat room'',
                d\<lparr> chatRoomMembers :=
                     filter (\<lambda>m. cm_id m \<noteq> cm_id membership) (chatRoomMembers d) \<rparr>))"

text \<open>A sequence of leave requests, each given as (caller, room).\<close>

fun leaveAll :: "db \<Rightarrow> (string \<times> string) list \<Rightarrow> db" where
  "leaveAll d [] = d"
| "leaveAll d (c # cs) = leaveAll (snd (leaveRoute d (fst c) (snd c))) cs"

section \<open>Live sessions (services/socketService)\<close>

datatype Payload = PMessage Message | PError string

text \<open>\<open>io.to(room).emit(event, payload)\<close> and \<open>socket.emit(event, payload)\<close>.\<close>

datatype Emit = ToRoom string string Payload | ToSender string Payload

text \<open>\<open>String.prototype.toLowerCase\<close> on code units below 256, and \<open>includes\<close>.\<close>

definition lowerChar :: "char \<Rightarrow> char" where
  "lowerChar c =
     (let n = (of_char c :: nat)
      in if (65 \<le> n \<and> n \<le> 90) \<or> (192 \<le> n \<and> n \<le> 222 \<and> n \<noteq> 215)
         then char_of (n + 32) else c)"

definition toLowerCase :: "string \<Rightarrow> string" where
  "toLowerCase s = map lowerChar s"

fun includes_str :: "string \<Rightarrow> string \<Rightarrow> bool" where
  "includes_str [] t = (t = [])"
| "includes_str (c # cs) t = (take (length t) (c # cs) = t \<or> includes_str cs t)"

definition aiError :: "string \<Rightarrow> string \<Rightarrow> Emit" where
  "aiError rid msg = ToRoom rid ''ai_error'' (PError msg)"

text \<open>The generation step of \<open>handleAIResponse\<close>: a non-empty context, or a single message.\<close>

definition socketGenerate :: "env \<Rightarrow> string \<Rightarrow> ChatMessage list option \<Rightarrow> Error + ChatResponse" where
  "socketGenerate e userMessage ctx =
     (case ctx of
        None \<Rightarrow>
          generateResponse e userMessage \<lparr> opt_model = None, systemPrompt = Some personaPrompt \<rparr>
      | Some c \<Rightarrow>
          if c \<noteq> []
          then generateChatResponse e (c @ [\<lparr> role = RoleUser, content = userMessage \<rparr>])
                 \<lparr> opt_model = None, systemPrompt = None \<rparr>
          else generateResponse e userMessage
                 \<lparr> opt_model = None, systemPrompt = Some personaPrompt \<rparr>)"

definition handleAIResponse ::
  "env \<Rightarrow> db \<Rightarrow> string \<Rightarrow> string \<Rightarrow> string \<Rightarrow> ChatMessage list option \<Rightarrow> db \<times> Emit list" where
  "handleAIResponse e d rid userMessage uid ctx =
     (let quota = checkUsageQuota e d uid
      in if \<not> canUse quota
         then (d, [aiError rid ''AI usage quota exceeded. Please upgrade your subscription.''])
         else case socketGenerate e userMessage ctx of
           Inl _ \<Rightarrow> (d, [aiError rid ''Failed to generate AI response''])
         | Inr aiResponse \<Rightarrow>
             (let aiMessage = aiMessageOf rid aiResponse
              in case createMessage d aiMessage of
                   Inl _ \<Rightarrow> (d, [aiError rid ''Failed to generate AI response''])
                 | Inr d1 \<Rightarrow>
                     (case incrementUsage d1 uid of
                        (Inl _, d2) \<Rightarrow> (d2, [aiError rid ''Failed to generate AI response''])
                      | (Inr _, d2) \<Rightarrow>
                          (d2, [ToRoom rid ''new_message'' (PMessage aiMessage)]))))"

text \<open>The \<open>ai_chat\<close> event of the socket of user \<open>uid\<close>.\<close>

definition onAiChat ::
  "env \<Rightarrow> db \<Rightarrow> string \<Rightarrow> string \<Rightarrow> string \<Rightarrow> ChatMessage list option \<Rightarrow> db \<times> Emit list" where
  "onAiChat e d uid rid message ctx = handleAIResponse e d rid message uid ctx"

definition userMessageOf :: "string \<Rightarrow> string \<Rightarrow> string \<Rightarrow> string option \<Rightarrow> Message" where
  "userMessageOf uid rid text ty =
     \<lparr> m_content = text, m_type = (case ty of None \<Rightarrow> ''TEXT'' | Some t \<Rightarrow> t),
       m_sender = USER, m_userId = Some uid, m_chatRoomId = rid, m_aiModel = None,
       m_promptTokens = None, m_completionTokens = None \<rparr>"

text \<open>
  The \<open>send_message\<close> event of the socket of user \<open>uid\<close>. The type sent by the client
  (\<open>TEXT\<close> when absent) goes to \<open>prisma.message.create\<close> unchecked; when the create
  throws, the \<open>catch\<close> emits \<open>Failed to send message\<close> and nothing else happens.
\<close>

definition onSendMessage ::
  "env \<Rightarrow> db \<Rightarrow> string \<Rightarrow> string \<Rightarrow> string \<Rightarrow> string option \<Rightarrow> db \<times> Emit list" where
  "onSendMessage e d uid rid text ty =
     (case findMembership d uid rid of
        None \<Rightarrow> (d, [ToSender ''error'' (PError ''Not authorized to send messages to this room'')])
      | Some _ \<Rightarrow>
          (let message = userMessageOf uid rid text ty
           in case createMessage d message of
                Inl _ \<Rightarrow> (d, [ToSender ''error'' (PError ''Failed to send message'')])
              | Inr d1 \<Rightarrow>
                  (let sent = ToRoom rid ''new_message'' (PMessage message);
                       ai = (case chatRooms d1 rid of
                               None \<Rightarrow> False
                             | Some room \<Rightarrow> allowAI room \<and> includes_str (toLowerCase text) ''@ai'')
                   in if ai
                      then (case handleAIResponse e d1 rid text uid None of
                              (d2, evs) \<Rightarrow> (d2, sent # evs))
                      else (d1, [sent]))))"

section \<open>Rate limiter (middleware/rateLimiter)\<close>

record Request =
  ip :: string
  authorization :: "string option"

text \<open>
  \<open>keyGenerator\<close>: an absent and an empty \<open>Authorization\<close> header are both falsy;
  splitting a string does not throw, so the \<open>catch\<close> is never entered.
\<close>

definition keyGenerator :: "Request \<Rightarrow> string" where
  "keyGenerator rq =
     (case authorization rq of
        None \<Rightarrow> ''rate_limit:'' @ ip rq
      | Some authHeader \<Rightarrow>
          if authHeader \<noteq> [] then ''rate_limit:'' @ ip rq @ '':auth''
          else ''rate_limit:'' @ ip rq)"

text \<open>
  The Redis keyspace as far as the store uses it: an integer per key and the time (in
  milliseconds) at which the key expires, if it has one. A key is gone from its expiry
  time on.
\<close>

type_synonym redis = "string \<rightharpoonup> (int \<times> nat option)"

definition redisGet :: "redis \<Rightarrow> nat \<Rightarrow> string \<Rightarrow> (int \<times> nat option) option" where
  "redisGet r now key =
     (case r key of
        None \<Rightarrow> None
      | Some (v, ex) \<Rightarrow>
          (case ex of
             None \<Rightarrow> Some (v, ex)
           | Some t \<Rightarrow> if now < t then Some (v, ex) else None))"

definition redisIncr :: "redis \<Rightarrow> nat \<Rightarrow> string \<Rightarrow> int \<times> redis" where
  "redisIncr r now key =
     (case redisGet r now key of
        None \<Rightarrow> (1, r(key \<mapsto> (1, None)))
      | Some (v, ex) \<Rightarrow> (v + 1, r(key \<mapsto> (v + 1, ex))))"

definition redisExpire :: "redis \<Rightarrow> nat \<Rightarrow> string \<Rightarrow> nat \<Rightarrow> redis" where
  "redisExpire r now key seconds =
     (case redisGet r now key of
        None \<Rightarrow> r
      | Some (v, _) \<Rightarrow> r(key \<mapsto> (v, Some (now + seconds * 1000))))"

record HitInfo =
  totalHits :: int
  resetTime :: nat

text \<open>\<open>createRedisStore().incr\<close> at time \<open>now\<close>.\<close>

definition incr :: "redis \<Rightarrow> nat \<Rightarrow> string \<Rightarrow> HitInfo \<times> redis" where
  "incr r now key =
     (case redisIncr r now key of
        (result, r1) \<Rightarrow>
          (\<lparr> totalHits = result, resetTime = now + 900000 \<rparr>,
           if result = 1 then redisExpire r1 now key 900 else r1))"

text \<open>
  Modelled from the spec: the decision of the \<open>express-rate-limit\<close> middleware, a library
  that is not among the sources. It asks the store for the hit count of the request's key
  and rejects a hit beyond \<open>maxHits\<close>. The configured window length \<open>windowMs\<close> is an
  option of the middleware; the store above is never given it.
\<close>

definition rateLimiter :: "nat \<Rightarrow> int \<Rightarrow> redis \<Rightarrow> nat \<Rightarrow> Request \<Rightarrow> bool \<times> redis" where
  "rateLimiter windowMs maxHits r now rq =
     (case incr r now (keyGenerator rq) of
        (info, r1) \<Rightarrow> (totalHits info \<le> maxHits, r1))"

text \<open>Hits arriving at the given times, in order; the decisions, in order.\<close>

fun hits :: "nat \<Rightarrow> int \<Rightarrow> redis \<Rightarrow> (nat \<times> Request) list \<Rightarrow> bool list" where
  "hits windowMs maxHits r [] = []"
| "hits windowMs maxHits r (h # hs) =
     (case rateLimiter windowMs maxHits r (fst h) (snd h) of
        (allowed, r1) \<Rightarrow> allowed # hits windowMs maxHits r1 hs)"

section \<open>Sample data\<close>

text \<open>
  A small database for the concrete runs below: alice owns the room \<open>general\<close> and has a
  subscription with the given limit and consumption, bob is a member of \<open>general\<close>
  without a subscription, carol has a fresh subscription and is a member of the room
  \<open>quiet\<close> only, where the assistant is switched off.
\<close>

definition sampleDb :: "int \<Rightarrow> int \<Rightarrow> db" where
  "sampleDb limit used =
     \<lparr> users =
         [''alice'' \<mapsto> \<lparr> messageCount = used,
                         subscription = Some \<lparr> monthlyMessageLimit = limit, messagesUsed = used \<rparr> \<rparr>,
          ''bob'' \<mapsto> \<lparr> messageCount = 0, subscription = None \<rparr>,
          ''carol'' \<mapsto> \<lparr> messageCount = 0,
                         subscription = Some \<lparr> monthlyMessageLimit = 50, messagesUsed = 0 \<rparr> \<rparr>],
       chatRooms = [''general'' \<mapsto> \<lparr> allowAI = True \<rparr>, ''quiet'' \<mapsto> \<lparr> allowAI = False \<rparr>],
       chatRoomMembers =
         [\<lparr> cm_id = ''m1'', cm_userId = ''alice'', cm_chatRoomId = ''general'', cm_role = OWNER \<rparr>,
          \<lparr> cm_id = ''m2'', cm_userId = ''bob'', cm_chatRoomId = ''general'', cm_role = MEMBER \<rparr>,
          \<lparr> cm_id = ''m3'', cm_userId = ''carol'', cm_chatRoomId = ''quiet'', cm_role = MEMBER \<rparr>],
       messages = [] \<rparr>"

text \<open>
  The same with an allowance of 2 for alice and a second assistant-enabled room,
  \<open>random\<close>, of which she is a member.
\<close>

definition twoRoomDb :: db where
  "twoRoomDb =
     (sampleDb 2 0)
       \<lparr> chatRooms := (chatRooms (sampleDb 2 0))(''random'' \<mapsto> \<lparr> allowAI = True \<rparr>),
         chatRoomMembers := chatRoomMembers (sampleDb 2 0) @
           [\<lparr> cm_id = ''m4'', cm_userId = ''alice'', cm_chatRoomId = ''random'',
              cm_role = MEMBER \<rparr>] \<rparr>"

text \<open>A provider that always answers, one that echoes its prompt, one that always throws.\<close>

definition okEnv :: env where
  "okEnv = \<lparr> generateContent = (\<lambda>model prompt. Some ''Hi''), userReadFails = False \<rparr>"

definition echoEnv :: env where
  "echoEnv = \<lparr> generateContent = (\<lambda>model prompt. Some prompt), userReadFails = False \<rparr>"

definition downEnv :: env where
  "downEnv = \<lparr> generateContent = (\<lambda>model prompt. None), userReadFails = False \<rparr>"

definition ask :: "string \<Rightarrow> string \<Rightarrow> AiChatRequest" where
  "ask uid rid =
     \<lparr> req_user = uid, req_chatRoomId = rid, req_message = ''hi'', req_context = None,
       req_model = None \<rparr>"

section \<open>Unfolding the model on concrete data\<close>

lemmas model_defs =
  aiChatRoute_def aiChatCheck_def aiChatCommit_def aiChatGenerate_def findMembership_def
  checkUsageQuota_def incrementUsage_def createMessage_def aiMessageOf_def
  generateResponse_def generateChatResponse_def fullPrompt_def chatPrompt_def
  conversationHistory_def lastUserMessage_def turnLine_def nl_def defaultModel_def ceil4_def
  personaPrompt_def reqModel_def handleAIResponse_def onAiChat_def socketGenerate_def
  aiError_def sampleDb_def okEnv_def echoEnv_def downEnv_def ask_def quotaExceeded_def
  maxInt32_def messageTypes_def usageError_def Let_def

section \<open>The quota ledger and the ai-chat route\<close>

lemma checkUsageQuota_nonneg: "0 \<le> remaining (checkUsageQuota e d uid)"
  by (simp add: checkUsageQuota_def Let_def split: option.splits)

lemma checkUsageQuota_canUse:
  "canUse (checkUsageQuota e d uid) \<longleftrightarrow> 0 < remaining (checkUsageQuota e d uid)"
  by (auto simp add: checkUsageQuota_def Let_def max_def split: option.splits)

lemma incrementUsage_tables:
  "incrementUsage d uid = (r, d1) \<Longrightarrow>
   chatRooms d1 = chatRooms d \<and> chatRoomMembers d1 = chatRoomMembers d \<and> messages d1 = messages d"
  by (auto simp: incrementUsage_def Let_def split: option.splits if_splits)

lemma incrementUsage_Inr:
  "incrementUsage d uid = (Inr x, d1) \<Longrightarrow>
   \<exists>u s. users d uid = Some u \<and> subscription u = Some s
     \<and> users d1 = (users d)(uid \<mapsto>
          u\<lparr> subscription := Some (s\<lparr> messagesUsed := messagesUsed s + 1 \<rparr>),
             messageCount := messageCount u + 1 \<rparr>)"
  by (auto simp: incrementUsage_def Let_def split: option.splits if_splits)

lemma incrementUsage_Inl:
  "incrementUsage d uid = (Inl x, d1) \<Longrightarrow> users d uid = Some u \<Longrightarrow>
   messageCount u < maxInt32 \<Longrightarrow> d1 = d"
  by (auto simp: incrementUsage_def Let_def split: option.splits if_splits)

lemma incrementUsage_ok:
  "users d uid = Some u \<Longrightarrow> subscription u = Some s \<Longrightarrow>
   messagesUsed s < maxInt32 \<Longrightarrow> messageCount u < maxInt32 \<Longrightarrow>
   incrementUsage d uid =
     (Inr (), d\<lparr> users := (users d)(uid \<mapsto>
        u\<lparr> subscription := Some (s\<lparr> messagesUsed := messagesUsed s + 1 \<rparr>),
           messageCount := messageCount u + 1 \<rparr>) \<rparr>)"
  by (simp add: incrementUsage_def Let_def)

text \<open>
  When the lifetime counter is at the end of its range, the second update throws after
  the first has been written.
\<close>

lemma incrementUsage_second_update_fails:
  "users d uid = Some u \<Longrightarrow> subscription u = Some s \<Longrightarrow>
   messagesUsed s < maxInt32 \<Longrightarrow> messageCount u = maxInt32 \<Longrightarrow>
   incrementUsage d uid =
     (Inl usageError, d\<lparr> users := (users d)(uid \<mapsto>
        u\<lparr> subscription := Some (s\<lparr> messagesUsed := messagesUsed s + 1 \<rparr>) \<rparr>) \<rparr>)"
  by (simp add: incrementUsage_def Let_def)

lemma createMessage_users:
  "createMessage d m = Inr d1 \<Longrightarrow>
   users d1 = users d \<and> chatRooms d1 = chatRooms d \<and> chatRoomMembers d1 = chatRoomMembers d
   \<and> messages d1 = messages d @ [m]"
  by (auto simp: createMessage_def split: option.splits if_splits)

lemma createMessage_ai:
  "chatRooms d rid = Some room \<Longrightarrow>
   createMessage d (aiMessageOf rid r) = Inr (d\<lparr> messages := messages d @ [aiMessageOf rid r] \<rparr>)"
  by (simp add: createMessage_def aiMessageOf_def messageTypes_def)

lemma aiChatCommit_tables:
  "aiChatCommit e d rq q = (r, d1) \<Longrightarrow>
   chatRooms d1 = chatRooms d \<and> chatRoomMembers d1 = chatRoomMembers d"
  by (auto simp: aiChatCommit_def Let_def split: sum.splits prod.splits
      dest!: createMessage_users incrementUsage_tables)

lemma aiChatRoute_tables:
  "aiChatRoute e d rq = (r, d1) \<Longrightarrow>
   chatRooms d1 = chatRooms d \<and> chatRoomMembers d1 = chatRoomMembers d"
  by (auto simp: aiChatRoute_def split: sum.splits dest: aiChatCommit_tables)

lemma aiChatCommit_fail_users:
  assumes "aiChatCommit e d rq q = (Inl err, d1)"
      and "users d (req_user rq) = Some u" and "messageCount u < maxInt32"
  shows "users d1 = users d"
proof (cases "aiChatGenerate e rq")
  case (Inl a)
  with assms(1) show ?thesis by (simp add: aiChatCommit_def)
next
  case (Inr r)
  show ?thesis
  proof (cases "createMessage d (aiMessageOf (req_chatRoomId rq) r)")
    case (Inl a)
    with Inr assms(1) show ?thesis by (simp add: aiChatCommit_def Let_def)
  next
    case cm: (Inr dm)
    from createMessage_users[OF cm] assms(2) have dm: "users dm = users d"
      "users dm (req_user rq) = Some u" by simp_all
    obtain x d2 where iu: "incrementUsage dm (req_user rq) = (x, d2)" by fastforce
    with Inr cm assms(1) obtain y where "x = Inl y" "d1 = d2"
      by (cases x) (auto simp: aiChatCommit_def Let_def)
    with iu incrementUsage_Inl[OF _ dm(2) assms(3)] have "d1 = dm" by simp
    with dm show ?thesis by simp
  qed
qed

lemma aiChatRoute_fail_users:
  assumes "aiChatRoute e d rq = (Inl err, d1)"
      and "users d (req_user rq) = Some u" and "messageCount u < maxInt32"
  shows "users d1 = users d"
proof (cases "aiChatCheck e d rq")
  case (Inl a)
  with assms(1) show ?thesis by (simp add: aiChatRoute_def)
next
  case (Inr q)
  with assms(1) have "aiChatCommit e d rq q = (Inl err, d1)" by (simp add: aiChatRoute_def)
  from aiChatCommit_fail_users[OF this assms(2,3)] show ?thesis .
qed

lemma aiChatCheck_ok:
  "aiChatCheck e d rq = Inr q \<Longrightarrow> q = checkUsageQuota e d (req_user rq) \<and> canUse q"
  by (auto simp: aiChatCheck_def Let_def split: if_splits option.splits)

lemma canUse_sub:
  "canUse (checkUsageQuota e d uid) \<Longrightarrow>
   \<exists>u s. users d uid = Some u \<and> subscription u = Some s
     \<and> messagesUsed s < monthlyMessageLimit s
     \<and> remaining (checkUsageQuota e d uid) = monthlyMessageLimit s - messagesUsed s"
  by (auto simp: checkUsageQuota_def Let_def split: if_splits option.splits)

lemma aiChatRoute_success:
  assumes "aiChatRoute e d rq = (Inr res, d1)"
  shows "\<exists>u s. users d (req_user rq) = Some u \<and> subscription u = Some s
          \<and> messagesUsed s < monthlyMessageLimit s
          \<and> res_remaining res = monthlyMessageLimit s - messagesUsed s - 1
          \<and> res_remaining res = remaining (checkUsageQuota e d (req_user rq)) - 1
          \<and> users d1 = (users d)(req_user rq \<mapsto>
               u\<lparr> subscription := Some (s\<lparr> messagesUsed := messagesUsed s + 1 \<rparr>),
                  messageCount := messageCount u + 1 \<rparr>)
          \<and> chatRooms d1 = chatRooms d \<and> chatRoomMembers d1 = chatRoomMembers d
          \<and> messages d1 = messages d @ [res_message res] \<and> m_sender (res_message res) = AI"
proof -
  from assms obtain q where q: "aiChatCheck e d rq = Inr q"
    and c: "aiChatCommit e d rq q = (Inr res, d1)"
    by (auto simp: aiChatRoute_def split: sum.splits)
  from aiChatCheck_ok[OF q] have qq: "q = checkUsageQuota e d (req_user rq)" and cu: "canUse q"
    by auto
  from canUse_sub[of e d "req_user rq"] cu qq obtain u s where
    us: "users d (req_user rq) = Some u" "subscription u = Some s"
        "messagesUsed s < monthlyMessageLimit s"
        "remaining q = monthlyMessageLimit s - messagesUsed s" by auto
  from c obtain r dm x where g: "aiChatGenerate e rq = Inr r"
    and cm: "createMessage d (aiMessageOf (req_chatRoomId rq) r) = Inr dm"
    and iu: "incrementUsage dm (req_user rq) = (Inr x, d1)"
    and res: "res = \<lparr> res_message = aiMessageOf (req_chatRoomId rq) r,
                       res_remaining = remaining q - 1,
                       res_promptTokens = r_promptTokens r,
                       res_completionTokens = r_completionTokens r \<rparr>"
    by (auto simp: aiChatCommit_def Let_def split: sum.splits prod.splits)
  from createMessage_users[OF cm] have dm: "users dm = users d" "chatRooms dm = chatRooms d"
    "chatRoomMembers dm = chatRoomMembers d"
    "messages dm = messages d @ [aiMessageOf (req_chatRoomId rq) r]" by auto
  from incrementUsage_Inr[OF iu] us dm(1) have u1: "users d1 = (users d)(req_user rq \<mapsto>
               u\<lparr> subscription := Some (s\<lparr> messagesUsed := messagesUsed s + 1 \<rparr>),
                  messageCount := messageCount u + 1 \<rparr>)" by auto
  from incrementUsage_tables[OF iu] dm have t: "chatRooms d1 = chatRooms d"
    "chatRoomMembers d1 = chatRoomMembers d"
    "messages d1 = messages d @ [aiMessageOf (req_chatRoomId rq) r]" by auto
  show ?thesis using us u1 t res qq by (auto simp: aiMessageOf_def)
qed

lemma aiChatRoute_not_canUse:
  assumes "\<not> canUse (checkUsageQuota e d (req_user rq))"
  shows "\<exists>err. aiChatRoute e d rq = (Inl err, d)"
  using assms
  by (auto simp: aiChatRoute_def aiChatCheck_def Let_def split: sum.splits option.splits if_splits)

lemma aiChatCheck_passes:
  assumes "req_message rq \<noteq> []"
      and "findMembership d (req_user rq) (req_chatRoomId rq) = Some m"
      and "chatRooms d (cm_chatRoomId m) = Some room"
      and "allowAI room"
  shows "aiChatCheck e d rq =
           (if canUse (checkUsageQuota e d (req_user rq))
            then Inr (checkUsageQuota e d (req_user rq)) else Inl quotaExceeded)"
  using assms by (simp add: aiChatCheck_def quotaExceeded_def Let_def)

lemma isSuccess_simps [simp]: "isSuccess (Inl x) = False" "isSuccess (Inr y) = True"
  by (simp_all add: isSuccess_def)

lemma runAiChat_Cons:
  "runAiChat d (c # cs) = (results, d') \<Longrightarrow>
   \<exists>r1 d1 rs. aiChatRoute (fst c) d (snd c) = (r1, d1) \<and> runAiChat d1 cs = (rs, d') \<and> results = r1 # rs"
  by (auto split: prod.splits)

lemma runAiChat_quota:
  assumes "\<forall>c \<in> set calls. req_user (snd c) = uid"
      and "users d uid = Some u" and "subscription u = Some s"
      and "runAiChat d calls = (results, d')"
      and "list_all isSuccess results \<or> messageCount u + int (length calls) \<le> maxInt32"
  shows "(\<exists>u' s'. users d' uid = Some u' \<and> subscription u' = Some s'
            \<and> monthlyMessageLimit s' = monthlyMessageLimit s
            \<and> messagesUsed s' = messagesUsed s + int (length (filter isSuccess results))
            \<and> messageCount u' = messageCount u + int (length (filter isSuccess results))
            \<and> (filter isSuccess results \<noteq> [] \<longrightarrow> messagesUsed s' \<le> monthlyMessageLimit s))
       \<and> (\<forall>i < length results. \<forall>res. results ! i = Inr res \<longrightarrow>
             res_remaining res = monthlyMessageLimit s - messagesUsed s
                 - int (length (filter isSuccess (take i results))) - 1)"
  using assms
proof (induction calls arbitrary: d u s results)
  case Nil
  then show ?case by auto
next
  case (Cons c cs)
  from runAiChat_Cons[OF Cons.prems(4)] obtain r1 d1 rs where
    step: "aiChatRoute (fst c) d (snd c) = (r1, d1)" and rest: "runAiChat d1 cs = (rs, d')"
    and res: "results = r1 # rs" by blast
  have uidc: "req_user (snd c) = uid" and uids: "\<forall>c \<in> set cs. req_user (snd c) = uid"
    using Cons.prems(1) by auto
  show ?case
  proof (cases r1)
    case (Inl err)
    with res Cons.prems(5) have bnd: "messageCount u + int (length cs) + 1 \<le> maxInt32" by simp
    then have "messageCount u < maxInt32" by simp
    with step Inl uidc Cons.prems(2) aiChatRoute_fail_users[of "fst c" d "snd c" err d1 u]
    have "users d1 = users d" by simp
    with Cons.prems have u1: "users d1 uid = Some u" by simp
    have h: "list_all isSuccess rs \<or> messageCount u + int (length cs) \<le> maxInt32"
      using bnd by simp
    from Cons.IH[OF uids u1 Cons.prems(3) rest h] obtain u' s' where
      a: "users d' uid = Some u'" "subscription u' = Some s'"
         "monthlyMessageLimit s' = monthlyMessageLimit s"
         "messagesUsed s' = messagesUsed s + int (length (filter isSuccess rs))"
         "messageCount u' = messageCount u + int (length (filter isSuccess rs))"
         "filter isSuccess rs \<noteq> [] \<longrightarrow> messagesUsed s' \<le> monthlyMessageLimit s"
      and b: "\<forall>i < length rs. \<forall>res. rs ! i = Inr res \<longrightarrow>
             res_remaining res = monthlyMessageLimit s - messagesUsed s
                 - int (length (filter isSuccess (take i rs))) - 1"
      by blast
    have "\<forall>i < length results. \<forall>res. results ! i = Inr res \<longrightarrow>
             res_remaining res = monthlyMessageLimit s - messagesUsed s
                 - int (length (filter isSuccess (take i results))) - 1"
    proof (intro allI impI)
      fix i res' assume i: "i < length results" and r: "results ! i = Inr res'"
      show "res_remaining res' = monthlyMessageLimit s - messagesUsed s
                 - int (length (filter isSuccess (take i results))) - 1"
      proof (cases i)
        case 0
        with r res Inl show ?thesis by simp
      next
        case (Suc j)
        with i r res have "j < length rs" "rs ! j = Inr res'" by auto
        with b have "res_remaining res' = monthlyMessageLimit s - messagesUsed s
                 - int (length (filter isSuccess (take j rs))) - 1" by blast
        with Suc res Inl show ?thesis by simp
      qed
    qed
    with a res Inl show ?thesis by auto
  next
    case (Inr ok)
    with step uidc aiChatRoute_success[of "fst c" d "snd c" ok d1] Cons.prems(2,3)
    have lt: "messagesUsed s < monthlyMessageLimit s"
      and rr: "res_remaining ok = monthlyMessageLimit s - messagesUsed s - 1"
      and u1: "users d1 uid = Some (u\<lparr> subscription := Some (s\<lparr> messagesUsed := messagesUsed s + 1 \<rparr>),
                    messageCount := messageCount u + 1 \<rparr>)"
      by auto
    let ?u1 = "u\<lparr> subscription := Some (s\<lparr> messagesUsed := messagesUsed s + 1 \<rparr>),
                    messageCount := messageCount u + 1 \<rparr>"
    let ?s1 = "s\<lparr> messagesUsed := messagesUsed s + 1 \<rparr>"
    have s1: "subscription ?u1 = Some ?s1" by simp
    have h: "list_all isSuccess rs \<or> messageCount ?u1 + int (length cs) \<le> maxInt32"
      using Cons.prems(5) res Inr by auto
    from Cons.IH[OF uids u1 s1 rest h] obtain u' s' where
      a: "users d' uid = Some u'" "subscription u' = Some s'"
         "monthlyMessageLimit s' = monthlyMessageLimit s"
         "messagesUsed s' = messagesUsed s + 1 + int (length (filter isSuccess rs))"
         "messageCount u' = messageCount u + 1 + int (length (filter isSuccess rs))"
         "filter isSuccess rs \<noteq> [] \<longrightarrow> messagesUsed s' \<le> monthlyMessageLimit s"
      and b: "\<forall>i < length rs. \<forall>res. rs ! i = Inr res \<longrightarrow>
             res_remaining res = monthlyMessageLimit s - (messagesUsed s + 1)
                 - int (length (filter isSuccess (take i rs))) - 1"
      by auto
    have bound: "messagesUsed s' \<le> monthlyMessageLimit s"
    proof (cases "filter isSuccess rs = []")
      case True
      with a(4) lt show ?thesis by simp
    next
      case False
      with a(6) show ?thesis by simp
    qed
    have "\<forall>i < length results. \<forall>res. results ! i = Inr res \<longrightarrow>
             res_remaining res = monthlyMessageLimit s - messagesUsed s
                 - int (length (filter isSuccess (take i results))) - 1"
    proof (intro allI impI)
      fix i res' assume i: "i < length results" and r: "results ! i = Inr res'"
      show "res_remaining res' = monthlyMessageLimit s - messagesUsed s
                 - int (length (filter isSuccess (take i results))) - 1"
      proof (cases i)
        case 0
        with r res Inr rr show ?thesis by simp
      next
        case (Suc j)
        with i r res have "j < length rs" "rs ! j = Inr res'" by auto
        with b have "res_remaining res' = monthlyMessageLimit s - (messagesUsed s + 1)
                 - int (length (filter isSuccess (take j rs))) - 1" by blast
        with Suc res Inr show ?thesis by simp
      qed
    qed
    with a bound res Inr show ?thesis by auto
  qed
qed

text \<open>
  C3. Quota monotonicity. Take a run of ai-chat invocations of one identity, one after
  the other, from a subscription with allowance \<open>A = monthlyMessageLimit - messagesUsed\<close>,
  and let \<open>N\<close> be the number of invocations in the run that succeed. When every
  invocation of the run succeeds, the remaining allowance reported afterwards is
  \<open>max 0 (A - N)\<close>. The same holds for a run in which some invocations fail, as long as
  the identity's lifetime counter \<open>messageCount\<close> has room for the run below the end of
  its 32-bit range, so that no usage update is left half done. Every successful
  invocation returns as remaining quota the allowance it found minus one; and an
  invocation made when the remaining allowance is 0 fails, with the quota-exceeded error
  429 once the membership and assistant-enabled checks pass, and leaves the whole
  database, consumed count included, as it was.
\<close>

theorem quota_monotonic:
  assumes "\<forall>c \<in> set calls. req_user (snd c) = uid"
      and "users d uid = Some u" and "subscription u = Some s"
      and "runAiChat d calls = (results, d')"
      and "\<not> userReadFails e"
      and "list_all isSuccess results \<or> messageCount u + int (length calls) \<le> maxInt32"
  shows "remaining (checkUsageQuota e d' uid)
           = max 0 (monthlyMessageLimit s - messagesUsed s - int (length (filter isSuccess results)))
       \<and> (\<forall>i < length results. \<forall>res. results ! i = Inr res \<longrightarrow>
             res_remaining res = monthlyMessageLimit s - messagesUsed s
                 - int (length (filter isSuccess (take i results))) - 1)
       \<and> (\<forall>rq. req_user rq = uid \<and> remaining (checkUsageQuota e d' uid) = 0 \<longrightarrow>
             (\<exists>err. aiChatRoute e d' rq = (Inl err, d'))
             \<and> (\<forall>m room. req_message rq \<noteq> []
                   \<and> findMembership d' uid (req_chatRoomId rq) = Some m
                   \<and> chatRooms d' (cm_chatRoomId m) = Some room \<and> allowAI room
                 \<longrightarrow> aiChatRoute e d' rq = (Inl quotaExceeded, d')))"
proof -
  from runAiChat_quota[OF assms(1-4) assms(6)] obtain u' s' where
      a: "users d' uid = Some u'" "subscription u' = Some s'"
         "monthlyMessageLimit s' = monthlyMessageLimit s"
         "messagesUsed s' = messagesUsed s + int (length (filter isSuccess results))"
         "filter isSuccess results \<noteq> [] \<longrightarrow> messagesUsed s' \<le> monthlyMessageLimit s"
      and b: "\<forall>i < length results. \<forall>res. results ! i = Inr res \<longrightarrow>
             res_remaining res = monthlyMessageLimit s - messagesUsed s
                 - int (length (filter isSuccess (take i results))) - 1"
    by blast
  have 1: "remaining (checkUsageQuota e d' uid)
           = max 0 (monthlyMessageLimit s - messagesUsed s - int (length (filter isSuccess results)))"
    using a assms(5) by (simp add: checkUsageQuota_def Let_def algebra_simps)
  have 3: "(\<exists>err. aiChatRoute e d' rq = (Inl err, d'))
             \<and> (\<forall>m room. req_message rq \<noteq> []
                   \<and> findMembership d' uid (req_chatRoomId rq) = Some m
                   \<and> chatRooms d' (cm_chatRoomId m) = Some room \<and> allowAI room
                 \<longrightarrow> aiChatRoute e d' rq = (Inl quotaExceeded, d'))"
    if "req_user rq = uid" "remaining (checkUsageQuota e d' uid) = 0" for rq
  proof -
    from that have nc: "\<not> canUse (checkUsageQuota e d' (req_user rq))"
      by (simp add: checkUsageQuota_canUse)
    have "\<exists>err. aiChatRoute e d' rq = (Inl err, d')"
      using nc by (rule aiChatRoute_not_canUse)
    moreover have "aiChatRoute e d' rq = (Inl quotaExceeded, d')"
      if "req_message rq \<noteq> []" "findMembership d' uid (req_chatRoomId rq) = Some m"
         "chatRooms d' (cm_chatRoomId m) = Some room" "allowAI room" for m room
      using that nc \<open>req_user rq = uid\<close> by (simp add: aiChatRoute_def aiChatCheck_passes)
    ultimately show ?thesis by blast
  qed
  from 1 b 3 show ?thesis by blast
qed

theorem quota_monotonic_witness:
  "map (\<lambda>c. req_user (snd c)) [(okEnv, ask ''alice'' ''general''), (okEnv, ask ''alice'' ''general'')]
       = [''alice'', ''alice'']
   \<and> map_option subscription (users (sampleDb 2 0) ''alice'')
       = Some (Some \<lparr> monthlyMessageLimit = 2, messagesUsed = 0 \<rparr>)
   \<and> \<not> userReadFails okEnv
   \<and> map_option messageCount (users (sampleDb 2 0) ''alice'') = Some 0
   \<and> map isSuccess (fst (runAiChat (sampleDb 2 0)
        [(okEnv, ask ''alice'' ''general''), (okEnv, ask ''alice'' ''general'')])) = [True, True]
   \<and> remaining (checkUsageQuota okEnv (snd (runAiChat (sampleDb 2 0)
        [(okEnv, ask ''alice'' ''general''), (okEnv, ask ''alice'' ''general'')])) ''alice'') = 0
   \<and> fst (aiChatRoute okEnv (snd (runAiChat (sampleDb 2 0)
        [(okEnv, ask ''alice'' ''general''), (okEnv, ask ''alice'' ''general'')]))
        (ask ''alice'' ''general'')) = Inl quotaExceeded"
proof -
  let ?calls = "[(okEnv, ask ''alice'' ''general''), (okEnv, ask ''alice'' ''general'')]"
  let ?u = "\<lparr> messageCount = 0, subscription = Some \<lparr> monthlyMessageLimit = 2, messagesUsed = 0 \<rparr> \<rparr>"
  let ?s = "\<lparr> monthlyMessageLimit = 2, messagesUsed = 0 \<rparr>"
  let ?m = "\<lparr> cm_id = ''m1'', cm_userId = ''alice'', cm_chatRoomId = ''general'', cm_role = OWNER \<rparr>"
  have h1: "\<forall>c \<in> set ?calls. req_user (snd c) = ''alice''" by (simp add: ask_def)
  have h2: "users (sampleDb 2 0) ''alice'' = Some ?u" by (simp add: sampleDb_def)
  have h3: "subscription ?u = Some ?s" by simp
  have h4: "runAiChat (sampleDb 2 0) ?calls
              = (fst (runAiChat (sampleDb 2 0) ?calls), snd (runAiChat (sampleDb 2 0) ?calls))"
    by simp
  have h5: "\<not> userReadFails okEnv" by (simp add: okEnv_def)
  have h6: "list_all isSuccess (fst (runAiChat (sampleDb 2 0) ?calls))
              \<or> messageCount ?u + int (length ?calls) \<le> maxInt32"
    by (simp add: maxInt32_def)
  have mc: "map_option messageCount (users (sampleDb 2 0) ''alice'') = Some 0"
    by (simp add: sampleDb_def)
  have n: "map isSuccess (fst (runAiChat (sampleDb 2 0) ?calls)) = [True, True]"
    by (simp add: model_defs)
  then have n2: "length (filter isSuccess (fst (runAiChat (sampleDb 2 0) ?calls))) = 2"
    by (simp add: model_defs)
  have mem: "findMembership (snd (runAiChat (sampleDb 2 0) ?calls)) ''alice''
               (req_chatRoomId (ask ''alice'' ''general'')) = Some ?m"
    by (simp add: model_defs)
  have room: "chatRooms (snd (runAiChat (sampleDb 2 0) ?calls)) (cm_chatRoomId ?m)
                = Some \<lparr> allowAI = True \<rparr>"
    by (simp add: model_defs)
  have msg: "req_message (ask ''alice'' ''general'') \<noteq> []" "req_user (ask ''alice'' ''general'') = ''alice''"
    by (simp_all add: ask_def)
  note q = quota_monotonic[OF h1 h2 h3 h4 h5 h6]
  from q n2 have r0: "remaining (checkUsageQuota okEnv (snd (runAiChat (sampleDb 2 0) ?calls)) ''alice'') = 0"
    by simp
  with q msg mem room have "aiChatRoute okEnv (snd (runAiChat (sampleDb 2 0) ?calls)) (ask ''alice'' ''general'')
     = (Inl quotaExceeded, snd (runAiChat (sampleDb 2 0) ?calls))"
    by (metis ChatRoom.select_convs(1))
  with h1 h2 h5 mc n r0 show ?thesis by simp
qed

lemma handleAIResponse_not_canUse:
  "\<not> canUse (checkUsageQuota e d uid) \<Longrightarrow>
   handleAIResponse e d rid msg uid ctx =
     (d, [aiError rid ''AI usage quota exceeded. Please upgrade your subscription.''])"
  by (simp add: handleAIResponse_def Let_def)

text \<open>
  C10. The quota check fails closed. When the read of the user row throws, when there is
  no such user, or when the user has no subscription, \<open>checkUsageQuota\<close> answers
  \<open>canUse = false, remaining = 0\<close>; the ai-chat route then fails without touching the
  database, with the quota-exceeded error 429 once its membership and assistant-enabled
  checks pass, and the live handler emits the quota \<open>ai_error\<close> and changes nothing.
  The remaining value reported is never negative; when the consumed count has reached or
  passed the allowance it is 0 and \<open>canUse\<close> is false.
\<close>

theorem checkUsageQuota_fails_closed:
  "(userReadFails e \<or> users d uid = None \<or> (\<exists>u. users d uid = Some u \<and> subscription u = None)
      \<longrightarrow> checkUsageQuota e d uid = \<lparr> canUse = False, remaining = 0 \<rparr>
          \<and> (\<forall>rq. req_user rq = uid \<longrightarrow> (\<exists>err. aiChatRoute e d rq = (Inl err, d)))
          \<and> (\<forall>rq m room. req_user rq = uid \<and> req_message rq \<noteq> []
                \<and> findMembership d uid (req_chatRoomId rq) = Some m
                \<and> chatRooms d (cm_chatRoomId m) = Some room \<and> allowAI room
              \<longrightarrow> aiChatRoute e d rq = (Inl quotaExceeded, d))
          \<and> (\<forall>rid msg ctx. handleAIResponse e d rid msg uid ctx =
                (d, [aiError rid ''AI usage quota exceeded. Please upgrade your subscription.''])))
   \<and> 0 \<le> remaining (checkUsageQuota e d uid)
   \<and> (\<forall>u s. users d uid = Some u \<and> subscription u = Some s
          \<and> monthlyMessageLimit s \<le> messagesUsed s
        \<longrightarrow> checkUsageQuota e d uid = \<lparr> canUse = False, remaining = 0 \<rparr>)"
proof -
  have closed: "checkUsageQuota e d uid = \<lparr> canUse = False, remaining = 0 \<rparr>"
    if "userReadFails e \<or> users d uid = None \<or> (\<exists>u. users d uid = Some u \<and> subscription u = None)"
    using that by (auto simp: checkUsageQuota_def)
  have over: "checkUsageQuota e d uid = \<lparr> canUse = False, remaining = 0 \<rparr>"
    if "users d uid = Some u" "subscription u = Some s" "monthlyMessageLimit s \<le> messagesUsed s"
    for u s
    using that by (simp add: checkUsageQuota_def Let_def)
  have route: "(\<forall>rq. req_user rq = uid \<longrightarrow> (\<exists>err. aiChatRoute e d rq = (Inl err, d)))
          \<and> (\<forall>rq m room. req_user rq = uid \<and> req_message rq \<noteq> []
                \<and> findMembership d uid (req_chatRoomId rq) = Some m
                \<and> chatRooms d (cm_chatRoomId m) = Some room \<and> allowAI room
              \<longrightarrow> aiChatRoute e d rq = (Inl quotaExceeded, d))
          \<and> (\<forall>rid msg ctx. handleAIResponse e d rid msg uid ctx =
                (d, [aiError rid ''AI usage quota exceeded. Please upgrade your subscription.'']))"
    if c: "checkUsageQuota e d uid = \<lparr> canUse = False, remaining = 0 \<rparr>"
  proof -
    from c have nc: "\<not> canUse (checkUsageQuota e d uid)" by simp
    have "\<exists>err. aiChatRoute e d rq = (Inl err, d)" if "req_user rq = uid" for rq
      using that nc aiChatRoute_not_canUse[of e d rq] by simp
    moreover have "aiChatRoute e d rq = (Inl quotaExceeded, d)"
      if "req_user rq = uid" "req_message rq \<noteq> []"
         "findMembership d uid (req_chatRoomId rq) = Some m"
         "chatRooms d (cm_chatRoomId m) = Some room" "allowAI room" for rq m room
      using that nc by (simp add: aiChatRoute_def aiChatCheck_passes)
    moreover have "handleAIResponse e d rid msg uid ctx =
        (d, [aiError rid ''AI usage quota exceeded. Please upgrade your subscription.''])"
      for rid msg ctx
      using nc by (rule handleAIResponse_not_canUse)
    ultimately show ?thesis by blast
  qed
  from closed over route checkUsageQuota_nonneg[of e d uid] show ?thesis by blast
qed

theorem checkUsageQuota_fails_closed_witness:
  "users (sampleDb 1 0) ''bob'' = Some \<lparr> messageCount = 0, subscription = None \<rparr>
   \<and> checkUsageQuota okEnv (sampleDb 1 0) ''bob'' = \<lparr> canUse = False, remaining = 0 \<rparr>
   \<and> aiChatRoute okEnv (sampleDb 1 0) (ask ''bob'' ''general'') = (Inl quotaExceeded, sampleDb 1 0)
   \<and> handleAIResponse okEnv (sampleDb 1 0) ''general'' ''hi'' ''bob'' None =
        (sampleDb 1 0, [aiError ''general'' ''AI usage quota exceeded. Please upgrade your subscription.''])
   \<and> 0 \<le> remaining (checkUsageQuota okEnv (sampleDb 1 0) ''bob'')"
proof -
  let ?m = "\<lparr> cm_id = ''m2'', cm_userId = ''bob'', cm_chatRoomId = ''general'', cm_role = MEMBER \<rparr>"
  have h: "users (sampleDb 1 0) ''bob'' = Some \<lparr> messageCount = 0, subscription = None \<rparr>"
    by (simp add: sampleDb_def)
  then have hyp: "userReadFails okEnv \<or> users (sampleDb 1 0) ''bob'' = None
      \<or> (\<exists>u. users (sampleDb 1 0) ''bob'' = Some u \<and> subscription u = None)" by simp
  have rq: "req_user (ask ''bob'' ''general'') = ''bob''" "req_message (ask ''bob'' ''general'') \<noteq> []"
    "findMembership (sampleDb 1 0) ''bob'' (req_chatRoomId (ask ''bob'' ''general'')) = Some ?m"
    "chatRooms (sampleDb 1 0) (cm_chatRoomId ?m) = Some \<lparr> allowAI = True \<rparr>"
    "allowAI \<lparr> allowAI = True \<rparr>"
    by (simp_all add: ask_def sampleDb_def findMembership_def)
  note t = checkUsageQuota_fails_closed[of okEnv "sampleDb 1 0" "''bob''"]
  from t hyp have 1: "checkUsageQuota okEnv (sampleDb 1 0) ''bob'' = \<lparr> canUse = False, remaining = 0 \<rparr>"
    by blast
  from t hyp rq have 2: "aiChatRoute okEnv (sampleDb 1 0) (ask ''bob'' ''general'') = (Inl quotaExceeded, sampleDb 1 0)"
    by blast
  from t hyp have 3: "handleAIResponse okEnv (sampleDb 1 0) ''general'' ''hi'' ''bob'' None =
        (sampleDb 1 0, [aiError ''general'' ''AI usage quota exceeded. Please upgrade your subscription.''])"
    by blast
  from t have 4: "0 \<le> remaining (checkUsageQuota okEnv (sampleDb 1 0) ''bob'')" by blast
  from h 1 2 3 4 show ?thesis by blast
qed

section \<open>Provider failure\<close>





section \<open>Leaving a room\<close>

lemma findMembership_Some:
  "findMembership d uid rid = Some m \<Longrightarrow>
   m \<in> set (chatRoomMembers d) \<and> cm_userId m = uid \<and> cm_chatRoomId m = rid"
  by (auto simp: findMembership_def find_Some_iff)

lemma leaveRoute_owner:
  "findMembership d uid rid = Some m \<Longrightarrow> cm_role m = OWNER \<Longrightarrow>
   leaveRoute d uid rid =
     (Inl (ApiError 400 ''Room owner cannot leave. Please transfer ownership first.''), d)"
  by (simp add: leaveRoute_def)

lemma leaveRoute_keeps_owner:
  assumes "distinct (map cm_id (chatRoomMembers d))"
      and "own \<in> set (chatRoomMembers d)" and "cm_role own = OWNER"
  shows "own \<in> set (chatRoomMembers (snd (leaveRoute d uid rid)))
       \<and> distinct (map cm_id (chatRoomMembers (snd (leaveRoute d uid rid))))"
proof (cases "findMembership d uid rid")
  case None
  with assms show ?thesis by (simp add: leaveRoute_def)
next
  case (Some m)
  show ?thesis
  proof (cases "cm_role m = OWNER")
    case True
    with Some assms show ?thesis by (simp add: leaveRoute_def)
  next
    case False
    from findMembership_Some[OF Some] have m: "m \<in> set (chatRoomMembers d)" by simp
    from False assms(3) have "own \<noteq> m" by auto
    with assms(1,2) m have "cm_id own \<noteq> cm_id m"
      by (meson distinct_map inj_onD)
    with Some False assms show ?thesis
      by (simp add: leaveRoute_def distinct_map_filter)
  qed
qed

lemma leaveAll_keeps_owner:
  "distinct (map cm_id (chatRoomMembers d)) \<Longrightarrow> own \<in> set (chatRoomMembers d) \<Longrightarrow>
   cm_role own = OWNER \<Longrightarrow> own \<in> set (chatRoomMembers (leaveAll d ops))"
proof (induction ops arbitrary: d)
  case Nil
  then show ?case by simp
next
  case (Cons c cs)
  from leaveRoute_keeps_owner[OF Cons.prems, of "fst c" "snd c"]
  have "own \<in> set (chatRoomMembers (leaveAll (snd (leaveRoute d (fst c) (snd c))) cs))"
    using Cons.IH Cons.prems(3) by blast
  then show ?case by simp
qed

text \<open>
  C7. The owner never leaves. When the membership found for the caller of
  \<open>POST /:chatRoomId/leave\<close> has the role OWNER, the request is rejected with the 400
  \<open>Room owner cannot leave\<close> and the database is unchanged. And whatever sequence of leave
  requests is served, by whichever callers on whichever rooms, every OWNER membership row
  of the table (rows have distinct ids, the primary key) is still in the table afterwards.
\<close>

theorem owner_membership_survives_leave:
  "(findMembership d uid rid = Some m \<and> cm_role m = OWNER \<longrightarrow>
      leaveRoute d uid rid =
        (Inl (ApiError 400 ''Room owner cannot leave. Please transfer ownership first.''), d))
   \<and> (distinct (map cm_id (chatRoomMembers d)) \<and> own \<in> set (chatRoomMembers d)
        \<and> cm_role own = OWNER \<longrightarrow> own \<in> set (chatRoomMembers (leaveAll d ops)))"
  using leaveRoute_owner leaveAll_keeps_owner by blast

theorem owner_membership_survives_leave_witness:
  "findMembership (sampleDb 1 0) ''alice'' ''general''
     = Some \<lparr> cm_id = ''m1'', cm_userId = ''alice'', cm_chatRoomId = ''general'', cm_role = OWNER \<rparr>
   \<and> leaveRoute (sampleDb 1 0) ''alice'' ''general'' =
        (Inl (ApiError 400 ''Room owner cannot leave. Please transfer ownership first.''), sampleDb 1 0)
   \<and> distinct (map cm_id (chatRoomMembers (sampleDb 1 0)))
   \<and> \<lparr> cm_id = ''m1'', cm_userId = ''alice'', cm_chatRoomId = ''general'', cm_role = OWNER \<rparr>
       \<in> set (chatRoomMembers (leaveAll (sampleDb 1 0)
            [(''alice'', ''general''), (''bob'', ''general''), (''alice'', ''general'')]))
   \<and> map cm_id (chatRoomMembers (leaveAll (sampleDb 1 0)
            [(''alice'', ''general''), (''bob'', ''general''), (''alice'', ''general'')])) = [''m1'', ''m3'']"
proof -
  let ?m = "\<lparr> cm_id = ''m1'', cm_userId = ''alice'', cm_chatRoomId = ''general'', cm_role = OWNER \<rparr>"
  let ?ops = "[(''alice'', ''general''), (''bob'', ''general''), (''alice'', ''general'')]"
  have f: "findMembership (sampleDb 1 0) ''alice'' ''general'' = Some ?m"
    by (simp add: findMembership_def sampleDb_def)
  have r: "cm_role ?m = OWNER" by simp
  have dd: "distinct (map cm_id (chatRoomMembers (sampleDb 1 0)))" by (simp add: sampleDb_def)
  have i: "?m \<in> set (chatRoomMembers (sampleDb 1 0))" by (simp add: sampleDb_def)
  have l: "map cm_id (chatRoomMembers (leaveAll (sampleDb 1 0) ?ops)) = [''m1'', ''m3'']"
    by (simp add: leaveRoute_def findMembership_def sampleDb_def)
  note t = owner_membership_survives_leave[where d = "sampleDb 1 0" and uid = "''alice''"
      and rid = "''general''" and m = ?m and own = ?m and ops = ?ops]
  from t f r have 1: "leaveRoute (sampleDb 1 0) ''alice'' ''general'' =
        (Inl (ApiError 400 ''Room owner cannot leave. Please transfer ownership first.''), sampleDb 1 0)"
    by blast
  from t dd i r have 2: "?m \<in> set (chatRoomMembers (leaveAll (sampleDb 1 0) ?ops))" by blast
  from f 1 dd 2 l show ?thesis by blast
qed

section \<open>Assistant invocations from the live transport\<close>

lemma handleAIResponse_success:
  assumes "canUse (checkUsageQuota e d uid)"
      and "socketGenerate e text ctx = Inr r"
      and "chatRooms d rid = Some room"
      and "users d uid = Some u" and "subscription u = Some s"
      and "messagesUsed s < maxInt32" and "messageCount u < maxInt32"
  shows "handleAIResponse e d rid text uid ctx =
     (d\<lparr> messages := messages d @ [aiMessageOf rid r],
         users := (users d)(uid \<mapsto>
            u\<lparr> subscription := Some (s\<lparr> messagesUsed := messagesUsed s + 1 \<rparr>),
               messageCount := messageCount u + 1 \<rparr>) \<rparr>,
      [ToRoom rid ''new_message'' (PMessage (aiMessageOf rid r))])"
proof -
  let ?dm = "d\<lparr> messages := messages d @ [aiMessageOf rid r] \<rparr>"
  have cm: "createMessage d (aiMessageOf rid r) = Inr ?dm"
    using assms(3) by (rule createMessage_ai)
  have "users ?dm uid = Some u" using assms(4) by simp
  from incrementUsage_ok[OF this assms(5,6,7)]
  have iu: "incrementUsage ?dm uid =
     (Inr (), ?dm\<lparr> users := (users ?dm)(uid \<mapsto>
        u\<lparr> subscription := Some (s\<lparr> messagesUsed := messagesUsed s + 1 \<rparr>),
           messageCount := messageCount u + 1 \<rparr>) \<rparr>)" .
  show ?thesis using assms(1,2) cm iu by (simp add: handleAIResponse_def Let_def)
qed

lemma onSendMessage_invalid_type:
  "findMembership d uid rid = Some m \<Longrightarrow> t \<notin> set messageTypes \<Longrightarrow>
   onSendMessage e d uid rid text (Some t) =
     (d, [ToSender ''error'' (PError ''Failed to send message'')])"
  by (simp add: onSendMessage_def createMessage_def userMessageOf_def Let_def)

lemma mention_example: "includes_str (toLowerCase ''Hey @AI'') ''@ai''"
  by code_simp

text \<open>
  C9 (as amended). A \<open>send_message\<close> event from a member of the room (an existing user,
  as the membership's foreign key demands), with a type that is absent or a value of
  \<open>MessageType\<close>, in a room whose \<open>allowAI\<close> flag is set and with a
  content that contains \<open>@ai\<close> after lowercasing, stores and broadcasts the user's
  message and then runs \<open>handleAIResponse\<close> on that content, without context. When the
  sender's quota check passes, the provider answers and the usage counters are within
  their column range, this stores the assistant's message after the user's, increments
  the sender's \<open>messagesUsed\<close> and \<open>messageCount\<close> by one and broadcasts both messages to
  the room. When the quota check fails or the generation fails, only the user's message
  is stored and nothing is consumed.
\<close>

theorem send_message_triggers_assistant:
  assumes "findMembership d uid rid = Some m"
      and "chatRooms d rid = Some room" and "allowAI room"
      and "includes_str (toLowerCase text) ''@ai''"
      and "users d uid = Some u"
      and "(case ty of None \<Rightarrow> ''TEXT'' | Some t \<Rightarrow> t) \<in> set messageTypes"
  shows "onSendMessage e d uid rid text ty =
           (case handleAIResponse e (d\<lparr> messages := messages d @ [userMessageOf uid rid text ty] \<rparr>)
                   rid text uid None of
              (d2, evs) \<Rightarrow>
                (d2, ToRoom rid ''new_message'' (PMessage (userMessageOf uid rid text ty)) # evs))
       \<and> (\<forall>r s. canUse (checkUsageQuota e d uid) \<and> socketGenerate e text None = Inr r
              \<and> subscription u = Some s \<and> monthlyMessageLimit s \<le> maxInt32
              \<and> messageCount u < maxInt32 \<longrightarrow>
            onSendMessage e d uid rid text ty =
              (d\<lparr> messages := messages d @ [userMessageOf uid rid text ty, aiMessageOf rid r],
                  users := (users d)(uid \<mapsto>
                     u\<lparr> subscription := Some (s\<lparr> messagesUsed := messagesUsed s + 1 \<rparr>),
                        messageCount := messageCount u + 1 \<rparr>) \<rparr>,
               [ToRoom rid ''new_message'' (PMessage (userMessageOf uid rid text ty)),
                ToRoom rid ''new_message'' (PMessage (aiMessageOf rid r))]))
       \<and> (\<not> canUse (checkUsageQuota e d uid) \<or> (\<exists>x. socketGenerate e text None = Inl x) \<longrightarrow>
            fst (onSendMessage e d uid rid text ty)
              = d\<lparr> messages := messages d @ [userMessageOf uid rid text ty] \<rparr>)"
proof -
  let ?d1 = "d\<lparr> messages := messages d @ [userMessageOf uid rid text ty] \<rparr>"
  have cm: "createMessage d (userMessageOf uid rid text ty) = Inr ?d1"
    using assms(2,5,6) by (simp add: createMessage_def userMessageOf_def)
  have room1: "chatRooms ?d1 rid = Some room" using assms(2) by simp
  have q1: "checkUsageQuota e ?d1 uid = checkUsageQuota e d uid"
    by (simp add: checkUsageQuota_def)
  have 1: "onSendMessage e d uid rid text ty =
           (case handleAIResponse e ?d1 rid text uid None of
              (d2, evs) \<Rightarrow>
                (d2, ToRoom rid ''new_message'' (PMessage (userMessageOf uid rid text ty)) # evs))"
    using assms(1,3,4) cm room1 by (simp add: onSendMessage_def Let_def)
  have 2: "onSendMessage e d uid rid text ty =
              (d\<lparr> messages := messages d @ [userMessageOf uid rid text ty, aiMessageOf rid r],
                  users := (users d)(uid \<mapsto>
                     u\<lparr> subscription := Some (s\<lparr> messagesUsed := messagesUsed s + 1 \<rparr>),
                        messageCount := messageCount u + 1 \<rparr>) \<rparr>,
               [ToRoom rid ''new_message'' (PMessage (userMessageOf uid rid text ty)),
                ToRoom rid ''new_message'' (PMessage (aiMessageOf rid r))])"
    if c: "canUse (checkUsageQuota e d uid)" and g: "socketGenerate e text None = Inr r"
      and s: "subscription u = Some s" and l: "monthlyMessageLimit s \<le> maxInt32"
      and k: "messageCount u < maxInt32" for r s
  proof -
    from canUse_sub[OF c] assms(5) s have "messagesUsed s < monthlyMessageLimit s" by auto
    with l have lt: "messagesUsed s < maxInt32" by simp
    have c1: "canUse (checkUsageQuota e ?d1 uid)" using c q1 by simp
    have u1: "users ?d1 uid = Some u" using assms(5) by simp
    from handleAIResponse_success[OF c1 g room1 u1 s lt k]
    have "handleAIResponse e ?d1 rid text uid None =
     (?d1\<lparr> messages := messages ?d1 @ [aiMessageOf rid r],
         users := (users ?d1)(uid \<mapsto>
            u\<lparr> subscription := Some (s\<lparr> messagesUsed := messagesUsed s + 1 \<rparr>),
               messageCount := messageCount u + 1 \<rparr>) \<rparr>,
      [ToRoom rid ''new_message'' (PMessage (aiMessageOf rid r))])" .
    with 1 show ?thesis by simp
  qed
  have 3: "fst (onSendMessage e d uid rid text ty) = ?d1"
    if "\<not> canUse (checkUsageQuota e d uid) \<or> (\<exists>x. socketGenerate e text None = Inl x)"
    using that 1 q1 by (auto simp: handleAIResponse_def Let_def)
  from 1 2 3 show ?thesis by blast
qed

theorem send_message_triggers_assistant_witness:
  "findMembership (sampleDb 1 0) ''alice'' ''general''
     = Some \<lparr> cm_id = ''m1'', cm_userId = ''alice'', cm_chatRoomId = ''general'', cm_role = OWNER \<rparr>
   \<and> chatRooms (sampleDb 1 0) ''general'' = Some \<lparr> allowAI = True \<rparr>
   \<and> includes_str (toLowerCase ''Hey @AI'') ''@ai''
   \<and> users (sampleDb 1 0) ''alice''
       = Some \<lparr> messageCount = 0, subscription = Some \<lparr> monthlyMessageLimit = 1, messagesUsed = 0 \<rparr> \<rparr>
   \<and> ''IMAGE'' \<in> set messageTypes
   \<and> canUse (checkUsageQuota okEnv (sampleDb 1 0) ''alice'')
   \<and> map m_sender (messages (fst (onSendMessage okEnv (sampleDb 1 0) ''alice'' ''general'' ''Hey @AI'' (Some ''IMAGE''))))
       = [USER, AI]
   \<and> map_option subscription (users (fst (onSendMessage okEnv (sampleDb 1 0) ''alice'' ''general'' ''Hey @AI'' (Some ''IMAGE''))) ''alice'')
       = Some (Some \<lparr> monthlyMessageLimit = 1, messagesUsed = 1 \<rparr>)
   \<and> length (snd (onSendMessage okEnv (sampleDb 1 0) ''alice'' ''general'' ''Hey @AI'' (Some ''IMAGE''))) = 2"
proof -
  let ?m = "\<lparr> cm_id = ''m1'', cm_userId = ''alice'', cm_chatRoomId = ''general'', cm_role = OWNER \<rparr>"
  let ?u = "\<lparr> messageCount = 0, subscription = Some \<lparr> monthlyMessageLimit = 1, messagesUsed = 0 \<rparr> \<rparr>"
  let ?s = "\<lparr> monthlyMessageLimit = 1, messagesUsed = 0 \<rparr>"
  let ?r = "\<lparr> r_content = ''Hi'', r_promptTokens = 22, r_completionTokens = 1, r_model = ''gemini-pro'' \<rparr>"
  let ?ty = "Some ''IMAGE''"
  have h1: "findMembership (sampleDb 1 0) ''alice'' ''general'' = Some ?m"
    by (simp add: findMembership_def sampleDb_def)
  have h2: "chatRooms (sampleDb 1 0) ''general'' = Some \<lparr> allowAI = True \<rparr>"
    by (simp add: sampleDb_def)
  have h3: "allowAI \<lparr> allowAI = True \<rparr>" by simp
  have h4: "includes_str (toLowerCase ''Hey @AI'') ''@ai''"
    by (rule mention_example)
  have h5: "users (sampleDb 1 0) ''alice'' = Some ?u" by (simp add: sampleDb_def)
  have ty: "''IMAGE'' \<in> set messageTypes" by (simp add: messageTypes_def)
  then have h6: "(case ?ty of None \<Rightarrow> ''TEXT'' | Some t \<Rightarrow> t) \<in> set messageTypes" by simp
  have c: "canUse (checkUsageQuota okEnv (sampleDb 1 0) ''alice'')"
    by (simp add: checkUsageQuota_def sampleDb_def okEnv_def)
  have g: "socketGenerate okEnv ''Hey @AI'' None = Inr ?r"
    by (simp add: socketGenerate_def generateResponse_def fullPrompt_def personaPrompt_def
        defaultModel_def nl_def ceil4_def okEnv_def Let_def)
  have u: "subscription ?u = Some ?s" "monthlyMessageLimit ?s \<le> maxInt32"
    "messageCount ?u < maxInt32"
    by (simp_all add: maxInt32_def)
  note t = send_message_triggers_assistant[OF h1 h2 h3 h4 h5 h6, of okEnv]
  from t c g u have "onSendMessage okEnv (sampleDb 1 0) ''alice'' ''general'' ''Hey @AI'' ?ty =
      ((sampleDb 1 0)\<lparr> messages := messages (sampleDb 1 0)
            @ [userMessageOf ''alice'' ''general'' ''Hey @AI'' ?ty, aiMessageOf ''general'' ?r],
          users := (users (sampleDb 1 0))(''alice'' \<mapsto>
             ?u\<lparr> subscription := Some (?s\<lparr> messagesUsed := messagesUsed ?s + 1 \<rparr>),
                 messageCount := messageCount ?u + 1 \<rparr>) \<rparr>,
       [ToRoom ''general'' ''new_message'' (PMessage (userMessageOf ''alice'' ''general'' ''Hey @AI'' ?ty)),
        ToRoom ''general'' ''new_message'' (PMessage (aiMessageOf ''general'' ?r))])"
    by blast
  then have "map m_sender (messages (fst (onSendMessage okEnv (sampleDb 1 0) ''alice'' ''general'' ''Hey @AI'' ?ty)))
       = [USER, AI]"
    "map_option subscription (users (fst (onSendMessage okEnv (sampleDb 1 0) ''alice'' ''general'' ''Hey @AI'' ?ty)) ''alice'')
       = Some (Some \<lparr> monthlyMessageLimit = 1, messagesUsed = 1 \<rparr>)"
    "length (snd (onSendMessage okEnv (sampleDb 1 0) ''alice'' ''general'' ''Hey @AI'' ?ty)) = 2"
    by (simp_all add: sampleDb_def userMessageOf_def aiMessageOf_def)
  with h1 h2 h4 h5 ty c show ?thesis by blast
qed

text \<open>
  C9 as stated fails. With content \<open>Hey @AI\<close> in the assistant-enabled room \<open>general\<close>:
  alice, a member whose allowance is used up, gets her message stored but no assistant
  message and no change of her usage; carol, who is not a member, gets the
  \<open>Not authorized\<close> error and nothing is stored or invoked; and alice's message with the
  type \<open>VIDEO\<close>, which the column does not admit, is answered \<open>Failed to send message\<close>
  with nothing stored or invoked.
\<close>

theorem send_message_without_assistant_reply:
  "includes_str (toLowerCase ''Hey @AI'') ''@ai''
   \<and> chatRooms (sampleDb 0 0) ''general'' = Some \<lparr> allowAI = True \<rparr>
   \<and> map m_sender (messages (fst (onSendMessage okEnv (sampleDb 0 0) ''alice'' ''general'' ''Hey @AI'' None)))
       = [USER]
   \<and> users (fst (onSendMessage okEnv (sampleDb 0 0) ''alice'' ''general'' ''Hey @AI'' None)) ''alice''
       = users (sampleDb 0 0) ''alice''
   \<and> onSendMessage okEnv (sampleDb 1 0) ''carol'' ''general'' ''Hey @AI'' None
       = (sampleDb 1 0, [ToSender ''error'' (PError ''Not authorized to send messages to this room'')])
   \<and> onSendMessage okEnv (sampleDb 1 0) ''alice'' ''general'' ''Hey @AI'' (Some ''VIDEO'')
       = (sampleDb 1 0, [ToSender ''error'' (PError ''Failed to send message'')])"
  by (simp add: onSendMessage_def userMessageOf_def mention_example model_defs)

lemma aiChatRoute_not_member:
  "req_message rq \<noteq> [] \<Longrightarrow> findMembership d (req_user rq) (req_chatRoomId rq) = None \<Longrightarrow>
   aiChatRoute e d rq = (Inl (ApiError 404 ''Chat room not found or access denied''), d)"
  by (simp add: aiChatRoute_def aiChatCheck_def)

lemma aiChatRoute_assistant_disabled:
  "req_message rq \<noteq> [] \<Longrightarrow> findMembership d (req_user rq) (req_chatRoomId rq) = Some m \<Longrightarrow>
   chatRooms d (cm_chatRoomId m) = Some room \<Longrightarrow> \<not> allowAI room \<Longrightarrow>
   aiChatRoute e d rq = (Inl (ApiError 403 ''AI is not enabled for this chat room''), d)"
  by (simp add: aiChatRoute_def aiChatCheck_def)

text \<open>
  C1. The two transports do not apply the same checks. On the sample database carol is
  not a member of \<open>general\<close>, and \<open>quiet\<close> has the assistant switched off. The HTTP route
  refuses her with 404 in the first room and 403 in the second. The \<open>ai_chat\<close> event of
  the live transport checks the quota only: in both rooms it stores an assistant
  message, increments carol's usage and broadcasts the message to the room.
\<close>

theorem ai_chat_event_skips_room_checks:
  "fst (aiChatRoute okEnv (sampleDb 1 0) (ask ''carol'' ''general''))
     = Inl (ApiError 404 ''Chat room not found or access denied'')
   \<and> fst (aiChatRoute okEnv (sampleDb 1 0) (ask ''carol'' ''quiet''))
     = Inl (ApiError 403 ''AI is not enabled for this chat room'')
   \<and> findMembership (sampleDb 1 0) ''carol'' ''general'' = None
   \<and> chatRooms (sampleDb 1 0) ''quiet'' = Some \<lparr> allowAI = False \<rparr>
   \<and> map m_sender (messages (fst (onAiChat okEnv (sampleDb 1 0) ''carol'' ''general'' ''hi'' None))) = [AI]
   \<and> map m_chatRoomId (messages (fst (onAiChat okEnv (sampleDb 1 0) ''carol'' ''general'' ''hi'' None)))
     = [''general'']
   \<and> users (fst (onAiChat okEnv (sampleDb 1 0) ''carol'' ''general'' ''hi'' None)) ''carol''
     = Some \<lparr> messageCount = 1, subscription = Some \<lparr> monthlyMessageLimit = 50, messagesUsed = 1 \<rparr> \<rparr>
   \<and> snd (onAiChat okEnv (sampleDb 1 0) ''carol'' ''general'' ''hi'' None)
     = [ToRoom ''general'' ''new_message''
         (PMessage (aiMessageOf ''general''
            \<lparr> r_content = ''Hi'', r_promptTokens = 21, r_completionTokens = 1, r_model = ''gemini-pro'' \<rparr>))]
   \<and> map m_chatRoomId (messages (fst (onAiChat okEnv (sampleDb 1 0) ''carol'' ''quiet'' ''hi'' None)))
     = [''quiet'']
   \<and> snd (onAiChat okEnv (sampleDb 1 0) ''carol'' ''quiet'' ''hi'' None)
     = [ToRoom ''quiet'' ''new_message''
         (PMessage (aiMessageOf ''quiet''
            \<lparr> r_content = ''Hi'', r_promptTokens = 21, r_completionTokens = 1, r_model = ''gemini-pro'' \<rparr>))]"
  by (simp add: model_defs)

section \<open>Sequential and overlapping invocations\<close>

lemma findMembership_room:
  "findMembership d uid rid = Some m \<Longrightarrow> cm_chatRoomId m = rid"
  by (auto simp: findMembership_def find_Some_iff)

lemma findMembership_cong:
  "chatRoomMembers d1 = chatRoomMembers d \<Longrightarrow> findMembership d1 = findMembership d"
  by (simp add: findMembership_def fun_eq_iff)

lemma servable_cong:
  "chatRooms d1 = chatRooms d \<Longrightarrow> chatRoomMembers d1 = chatRoomMembers d \<Longrightarrow>
   servable d1 uid c = servable d uid c"
  by (simp add: servable_def findMembership_def)

lemma servable_check:
  assumes "servable d uid c"
  shows "aiChatCheck (fst c) d (snd c) =
           (if canUse (checkUsageQuota (fst c) d uid)
            then Inr (checkUsageQuota (fst c) d uid) else Inl quotaExceeded)"
proof -
  from assms obtain m room where
    m: "findMembership d (req_user (snd c)) (req_chatRoomId (snd c)) = Some m"
    and r: "chatRooms d (req_chatRoomId (snd c)) = Some room" "allowAI room"
    and u: "req_user (snd c) = uid" "req_message (snd c) \<noteq> []"
    by (auto simp: servable_def split: option.splits)
  from findMembership_room[OF m] r have "chatRooms d (cm_chatRoomId m) = Some room" by simp
  from aiChatCheck_passes[OF u(2) m this r(2)] u(1) show ?thesis by simp
qed

lemma aiChatRoute_succeeds:
  assumes "servable d uid c"
      and "users d uid = Some u" and "subscription u = Some s"
      and "messagesUsed s < monthlyMessageLimit s"
      and "monthlyMessageLimit s \<le> maxInt32" and "messageCount u < maxInt32"
  shows "\<exists>res d1. aiChatRoute (fst c) d (snd c) = (Inr res, d1)"
proof -
  from assms(1) obtain r room where
    g: "aiChatGenerate (fst c) (snd c) = Inr r"
    and room: "chatRooms d (req_chatRoomId (snd c)) = Some room"
    and uid: "req_user (snd c) = uid" and rd: "\<not> userReadFails (fst c)"
    by (auto simp: servable_def split: option.splits sum.splits)
  have cu: "canUse (checkUsageQuota (fst c) d uid)"
    using assms(2,3,4) rd by (simp add: checkUsageQuota_def Let_def)
  with servable_check[OF assms(1)]
  have chk: "aiChatCheck (fst c) d (snd c) = Inr (checkUsageQuota (fst c) d uid)" by simp
  let ?dm = "d\<lparr> messages := messages d @ [aiMessageOf (req_chatRoomId (snd c)) r] \<rparr>"
  have cm: "createMessage d (aiMessageOf (req_chatRoomId (snd c)) r) = Inr ?dm"
    using room by (rule createMessage_ai)
  have um: "users ?dm uid = Some u" using assms(2) by simp
  have lt: "messagesUsed s < maxInt32" using assms(4,5) by simp
  note iu = incrementUsage_ok[OF um assms(3) lt assms(6)]
  show ?thesis
    using chk g cm iu uid by (simp add: aiChatRoute_def aiChatCommit_def Let_def)
qed

lemma runAiChat_servable:
  assumes "\<forall>c \<in> set calls. servable d uid c"
      and "users d uid = Some u" and "subscription u = Some s"
      and "monthlyMessageLimit s \<le> maxInt32"
      and "messageCount u + int (length calls) \<le> maxInt32"
      and "runAiChat d calls = (results, d')"
  shows "length results = length calls
       \<and> (\<forall>i < length calls. int i < monthlyMessageLimit s - messagesUsed s \<longrightarrow>
             isSuccess (results ! i))
       \<and> (\<forall>i < length calls. \<not> int i < monthlyMessageLimit s - messagesUsed s \<longrightarrow>
             results ! i = Inl quotaExceeded)"
  using assms
proof (induction calls arbitrary: d u s results)
  case Nil
  then show ?case by simp
next
  case (Cons c cs)
  from runAiChat_Cons[OF Cons.prems(6)] obtain r1 d1 rs where
    step: "aiChatRoute (fst c) d (snd c) = (r1, d1)" and rest: "runAiChat d1 cs = (rs, d')"
    and res: "results = r1 # rs" by blast
  have sc: "servable d uid c" and scs: "\<forall>c \<in> set cs. servable d uid c"
    using Cons.prems(1) by auto
  from aiChatRoute_tables[OF step] have tabs: "chatRooms d1 = chatRooms d"
    "chatRoomMembers d1 = chatRoomMembers d" by auto
  have scs1: "\<forall>c \<in> set cs. servable d1 uid c"
    using scs servable_cong[OF tabs] by simp
  have uidc: "req_user (snd c) = uid" and rd: "\<not> userReadFails (fst c)"
    using sc by (auto simp: servable_def)
  have cnt: "messageCount u < maxInt32" "messageCount u + int (length cs) \<le> maxInt32"
    "messageCount u + 1 + int (length cs) \<le> maxInt32"
    using Cons.prems(5) by auto
  show ?case
  proof (cases "0 < monthlyMessageLimit s - messagesUsed s")
    case True
    then have lt: "messagesUsed s < monthlyMessageLimit s" by simp
    from aiChatRoute_succeeds[OF sc Cons.prems(2,3) lt Cons.prems(4) cnt(1)] step
    obtain ok where ok: "r1 = Inr ok" by auto
    let ?u1 = "u\<lparr> subscription := Some (s\<lparr> messagesUsed := messagesUsed s + 1 \<rparr>),
                    messageCount := messageCount u + 1 \<rparr>"
    let ?s1 = "s\<lparr> messagesUsed := messagesUsed s + 1 \<rparr>"
    from aiChatRoute_success[of "fst c" d "snd c" ok d1] step ok uidc Cons.prems(2,3)
    have u1: "users d1 uid = Some ?u1" by auto
    have s1: "subscription ?u1 = Some ?s1" by simp
    have l1: "monthlyMessageLimit ?s1 \<le> maxInt32" using Cons.prems(4) by simp
    have c1: "messageCount ?u1 + int (length cs) \<le> maxInt32" using cnt(3) by simp
    from Cons.IH[OF scs1 u1 s1 l1 c1 rest] have
      ih: "length rs = length cs"
         "\<forall>i < length cs. int i < monthlyMessageLimit s - (messagesUsed s + 1) \<longrightarrow> isSuccess (rs ! i)"
         "\<forall>i < length cs. \<not> int i < monthlyMessageLimit s - (messagesUsed s + 1) \<longrightarrow>
             rs ! i = Inl quotaExceeded"
      by auto
    have a: "isSuccess (results ! i)"
      if "i < length (c # cs)" "int i < monthlyMessageLimit s - messagesUsed s" for i
    proof (cases i)
      case 0
      with res ok show ?thesis by simp
    next
      case (Suc j)
      with that ih(2) have "isSuccess (rs ! j)" by auto
      with Suc res show ?thesis by simp
    qed
    have b: "results ! i = Inl quotaExceeded"
      if "i < length (c # cs)" "\<not> int i < monthlyMessageLimit s - messagesUsed s" for i
    proof (cases i)
      case 0
      with that True show ?thesis by simp
    next
      case (Suc j)
      with that ih(3) have "rs ! j = Inl quotaExceeded" by auto
      with Suc res show ?thesis by simp
    qed
    from a b ih(1) res show ?thesis by auto
  next
    case False
    then have nc: "\<not> canUse (checkUsageQuota (fst c) d uid)"
      using Cons.prems(2,3) rd by (simp add: checkUsageQuota_def Let_def)
    with servable_check[OF sc] have "aiChatRoute (fst c) d (snd c) = (Inl quotaExceeded, d)"
      by (simp add: aiChatRoute_def)
    with step have r1: "r1 = Inl quotaExceeded" and d1: "d1 = d" by auto
    from Cons.IH[OF scs Cons.prems(2,3,4) cnt(2) rest[unfolded d1]] have
      ih: "length rs = length cs"
         "\<forall>i < length cs. \<not> int i < monthlyMessageLimit s - messagesUsed s \<longrightarrow>
            rs ! i = Inl quotaExceeded"
      by auto
    have b: "results ! i = Inl quotaExceeded" if "i < length (c # cs)" for i
    proof (cases i)
      case 0
      with res r1 show ?thesis by simp
    next
      case (Suc j)
      with that ih(2) False have "rs ! j = Inl quotaExceeded" by auto
      with Suc res show ?thesis by simp
    qed
    have c: "\<not> int i < monthlyMessageLimit s - messagesUsed s" for i
      using False by linarith
    from b c ih(1) res show ?thesis by auto
  qed
qed

text \<open>
  C2 (as amended). When \<open>K\<close> invocations of one identity are served one after the other,
  each finishing before the next starts, from a remaining allowance of exactly \<open>K - 1\<close>,
  each of them one that only the quota can stop (whatever its room, message, context or
  model) and the usage counters within their column range, exactly \<open>K - 1\<close> of them
  succeed and exactly one, the last, fails with the quota-exceeded error 429.
\<close>

theorem sequential_invocations_respect_quota:
  assumes "\<forall>c \<in> set calls. servable d uid c"
      and "users d uid = Some u" and "subscription u = Some s"
      and "monthlyMessageLimit s - messagesUsed s = int (length calls) - 1"
      and "calls \<noteq> []"
      and "monthlyMessageLimit s \<le> maxInt32"
      and "messageCount u + int (length calls) \<le> maxInt32"
      and "runAiChat d calls = (results, d')"
  shows "length results = length calls
       \<and> length (filter isSuccess results) = length calls - 1
       \<and> length (filter (\<lambda>x. x = Inl quotaExceeded) results) = 1
       \<and> results ! (length calls - 1) = Inl quotaExceeded"
proof -
  define K where "K = length calls"
  have K: "0 < K" using assms(5) by (simp add: K_def)
  from runAiChat_servable[OF assms(1,2,3,6,7,8)] assms(4) have
    len: "length results = K"
    and ok: "\<forall>i < K. int i < int K - 1 \<longrightarrow> isSuccess (results ! i)"
    and ko: "\<forall>i < K. \<not> int i < int K - 1 \<longrightarrow> results ! i = Inl quotaExceeded"
    by (auto simp: K_def)
  have iff: "isSuccess (results ! i) \<longleftrightarrow> i < K - 1" if "i < K" for i
  proof (cases "int i < int K - 1")
    case True
    with ok that show ?thesis by auto
  next
    case False
    with ko that have "results ! i = Inl quotaExceeded" by blast
    with False show ?thesis by auto
  qed
  have iff2: "results ! i = Inl quotaExceeded \<longleftrightarrow> i = K - 1" if "i < K" for i
  proof (cases "int i < int K - 1")
    case True
    with ok that have "isSuccess (results ! i)" by blast
    with True show ?thesis by (auto simp: isSuccess_def)
  next
    case False
    with ko that have "results ! i = Inl quotaExceeded" by blast
    with False that show ?thesis by auto
  qed
  have "{i. i < length results \<and> isSuccess (results ! i)} = {..<K - 1}"
    using iff len by auto
  then have 1: "length (filter isSuccess results) = K - 1"
    by (simp add: length_filter_conv_card)
  have "{i. i < length results \<and> results ! i = Inl quotaExceeded} = {K - 1}"
    using iff2 len K by auto
  then have 2: "length (filter (\<lambda>x. x = Inl quotaExceeded) results) = 1"
    by (simp add: length_filter_conv_card)
  from iff2[of "K - 1"] K have 3: "results ! (K - 1) = Inl quotaExceeded" by simp
  from len 1 2 3 show ?thesis by (simp add: K_def)
qed

theorem sequential_invocations_respect_quota_witness:
  "list_all (servable twoRoomDb ''alice'')
     [(okEnv, ask ''alice'' ''general''),
      (echoEnv, (ask ''alice'' ''random'')\<lparr> req_message := ''again'' \<rparr>),
      (okEnv, ask ''alice'' ''random'')]
   \<and> users twoRoomDb ''alice''
       = Some \<lparr> messageCount = 0, subscription = Some \<lparr> monthlyMessageLimit = 2, messagesUsed = 0 \<rparr> \<rparr>
   \<and> map isSuccess (fst (runAiChat twoRoomDb
        [(okEnv, ask ''alice'' ''general''),
         (echoEnv, (ask ''alice'' ''random'')\<lparr> req_message := ''again'' \<rparr>),
         (okEnv, ask ''alice'' ''random'')])) = [True, True, False]
   \<and> length (filter isSuccess (fst (runAiChat twoRoomDb
        [(okEnv, ask ''alice'' ''general''),
         (echoEnv, (ask ''alice'' ''random'')\<lparr> req_message := ''again'' \<rparr>),
         (okEnv, ask ''alice'' ''random'')]))) = 2
   \<and> length (filter (\<lambda>x. x = Inl quotaExceeded) (fst (runAiChat twoRoomDb
        [(okEnv, ask ''alice'' ''general''),
         (echoEnv, (ask ''alice'' ''random'')\<lparr> req_message := ''again'' \<rparr>),
         (okEnv, ask ''alice'' ''random'')]))) = 1"
proof -
  let ?calls = "[(okEnv, ask ''alice'' ''general''),
      (echoEnv, (ask ''alice'' ''random'')\<lparr> req_message := ''again'' \<rparr>),
      (okEnv, ask ''alice'' ''random'')]"
  let ?u = "\<lparr> messageCount = 0, subscription = Some \<lparr> monthlyMessageLimit = 2, messagesUsed = 0 \<rparr> \<rparr>"
  let ?s = "\<lparr> monthlyMessageLimit = 2, messagesUsed = 0 \<rparr>"
  let ?run = "runAiChat twoRoomDb ?calls"
  have sv: "list_all (servable twoRoomDb ''alice'') ?calls"
    by (simp add: servable_def twoRoomDb_def model_defs)
  then have h1: "\<forall>c \<in> set ?calls. servable twoRoomDb ''alice'' c"
    by (simp only: list_all_iff)
  have h2: "users twoRoomDb ''alice'' = Some ?u" by (simp add: twoRoomDb_def sampleDb_def)
  have h3: "subscription ?u = Some ?s" by simp
  have h4: "monthlyMessageLimit ?s - messagesUsed ?s = int (length ?calls) - 1" by simp
  have h5: "?calls \<noteq> []" by simp
  have h6: "monthlyMessageLimit ?s \<le> maxInt32" by (simp add: maxInt32_def)
  have h7: "messageCount ?u + int (length ?calls) \<le> maxInt32" by (simp add: maxInt32_def)
  have h8: "?run = (fst ?run, snd ?run)" by simp
  have ev: "map isSuccess (fst ?run) = [True, True, False]"
    by (simp add: twoRoomDb_def model_defs)
  note t = sequential_invocations_respect_quota[OF h1 h2 h3 h4 h5 h6 h7 h8]
  from t have c: "length (filter isSuccess (fst ?run)) = 2"
    "length (filter (\<lambda>x. x = Inl quotaExceeded) (fst ?run)) = 1" by simp_all
  from sv h2 ev c show ?thesis by blast
qed

text \<open>An invocation scheduled alone, check then commit, is the route.\<close>

lemma runSchedule_alone:
  "s_done (runSchedule e [rq] d [Check 0, Commit 0]) 0 = Some (fst (aiChatRoute e d rq))
   \<and> s_db (runSchedule e [rq] d [Check 0, Commit 0]) = snd (aiChatRoute e d rq)"
  by (simp add: runSchedule_def schedStep_def aiChatRoute_def split: sum.splits prod.splits)

text \<open>
  C2 as stated fails. The quota is read by the check and incremented only after the
  provider has answered, two separate steps of the route. With an allowance of 1 and two
  invocations that both pass the check before either increments, both succeed, two
  assistant messages are stored, and \<open>messagesUsed\<close> ends at 2 of 1.
\<close>

theorem interleaved_invocations_overrun_quota:
  "remaining (checkUsageQuota okEnv (sampleDb 1 0) ''alice'') = 1
   \<and> map_option isSuccess (s_done (runSchedule okEnv [ask ''alice'' ''general'', ask ''alice'' ''general'']
        (sampleDb 1 0) [Check 0, Check 1, Commit 0, Commit 1]) 0) = Some True
   \<and> map_option isSuccess (s_done (runSchedule okEnv [ask ''alice'' ''general'', ask ''alice'' ''general'']
        (sampleDb 1 0) [Check 0, Check 1, Commit 0, Commit 1]) 1) = Some True
   \<and> map_option subscription (users (s_db (runSchedule okEnv [ask ''alice'' ''general'', ask ''alice'' ''general'']
        (sampleDb 1 0) [Check 0, Check 1, Commit 0, Commit 1])) ''alice'')
       = Some (Some \<lparr> monthlyMessageLimit = 1, messagesUsed = 2 \<rparr>)
   \<and> map m_sender (messages (s_db (runSchedule okEnv [ask ''alice'' ''general'', ask ''alice'' ''general'']
        (sampleDb 1 0) [Check 0, Check 1, Commit 0, Commit 1]))) = [AI, AI]"
  by (simp add: runSchedule_def schedStep_def model_defs)

section \<open>Prompt composition\<close>

lemma lastUserMessage_snoc:
  "lastUserMessage (ctx @ [\<lparr> role = RoleUser, content = msg \<rparr>]) = msg"
  by (simp add: lastUserMessage_def)

lemma join_snoc: "xs \<noteq> [] \<Longrightarrow> join sep (xs @ [x]) = join sep xs @ sep @ x"
  by (induction sep xs rule: join.induct) auto

lemma chatPrompt_snoc:
  "ctx \<noteq> [] \<Longrightarrow>
   chatPrompt (ctx @ [\<lparr> role = RoleUser, content = msg \<rparr>])
     = conversationHistory ctx @ nl @ ''User: '' @ msg @ nl @ ''User: '' @ msg"
  by (simp add: chatPrompt_def conversationHistory_def lastUserMessage_snoc join_snoc turnLine_def)

text \<open>
  C8. With a conversation context the new user message is not appended once: the route
  puts it at the end of the turns it hands to \<open>generateChatResponse\<close>, which renders all
  turns and then appends the last user turn again. For the context
  \<open>[assistant: hello]\<close> and the message \<open>q\<close> the prompt sent to the provider, on either
  transport, is \<open>Assistant: hello\<close>, \<open>User: q\<close>, \<open>User: q\<close> on three lines. Without
  context the prompt is the persona instruction, an empty line and \<open>User: q\<close>.
\<close>

theorem chat_prompt_repeats_user_message:
  "chatPrompt ([\<lparr> role = RoleAssistant, content = ''hello'' \<rparr>] @ [\<lparr> role = RoleUser, content = ''q'' \<rparr>])
     = ''Assistant: hello'' @ nl @ ''User: q'' @ nl @ ''User: q''
   \<and> aiChatGenerate echoEnv
        \<lparr> req_user = ''alice'', req_chatRoomId = ''general'', req_message = ''q'',
          req_context = Some [\<lparr> role = RoleAssistant, content = ''hello'' \<rparr>], req_model = None \<rparr>
     = Inr \<lparr> r_content = ''Assistant: hello'' @ nl @ ''User: q'' @ nl @ ''User: q'',
             r_promptTokens = 8, r_completionTokens = 8, r_model = ''gemini-pro'' \<rparr>
   \<and> socketGenerate echoEnv ''q'' (Some [\<lparr> role = RoleAssistant, content = ''hello'' \<rparr>])
     = Inr \<lparr> r_content = ''Assistant: hello'' @ nl @ ''User: q'' @ nl @ ''User: q'',
             r_promptTokens = 8, r_completionTokens = 8, r_model = ''gemini-pro'' \<rparr>
   \<and> aiChatGenerate echoEnv
        \<lparr> req_user = ''alice'', req_chatRoomId = ''general'', req_message = ''q'',
          req_context = None, req_model = None \<rparr>
     = Inr \<lparr> r_content = personaPrompt @ nl @ nl @ ''User: q'',
             r_promptTokens = 20, r_completionTokens = 20, r_model = ''gemini-pro'' \<rparr>"
  by (simp add: model_defs)

section \<open>Rate limiter keys and windows\<close>

lemma keyGenerator_authenticated:
  "h \<noteq> [] \<Longrightarrow> keyGenerator \<lparr> ip = a, authorization = Some h \<rparr> = ''rate_limit:'' @ a @ '':auth''"
  by (simp add: keyGenerator_def)

text \<open>
  C5. The key of a request that carries an \<open>Authorization\<close> header is built from the
  network address and the constant suffix \<open>:auth\<close>; the identity in the header is not
  read. Two requests from the address 10.0.0.1 with the tokens of two different users
  get the same key, and with a limit of one hit the second user's request is rejected on
  the first user's count.
\<close>

theorem keyGenerator_ignores_identity:
  "keyGenerator \<lparr> ip = ''10.0.0.1'', authorization = Some ''Bearer token-of-alice'' \<rparr>
     = ''rate_limit:10.0.0.1:auth''
   \<and> keyGenerator \<lparr> ip = ''10.0.0.1'', authorization = Some ''Bearer token-of-bob'' \<rparr>
     = ''rate_limit:10.0.0.1:auth''
   \<and> hits 900000 1 Map.empty
        [(0, \<lparr> ip = ''10.0.0.1'', authorization = Some ''Bearer token-of-alice'' \<rparr>),
         (1000, \<lparr> ip = ''10.0.0.1'', authorization = Some ''Bearer token-of-bob'' \<rparr>)]
     = [True, False]"
  by (simp add: keyGenerator_def rateLimiter_def incr_def redisIncr_def redisExpire_def redisGet_def)

lemma incr_first_hit:
  "redisGet r now key = None \<Longrightarrow>
   totalHits (fst (incr r now key)) = 1
   \<and> snd (incr r now key) key = Some (1, Some (now + 900000))"
  by (simp add: incr_def redisIncr_def redisExpire_def redisGet_def)

lemma incr_later_hit:
  "redisGet r now key = Some (v, ex) \<Longrightarrow> v \<noteq> 0 \<Longrightarrow>
   totalHits (fst (incr r now key)) = v + 1 \<and> snd (incr r now key) key = Some (v + 1, ex)"
  by (simp add: incr_def redisIncr_def)

text \<open>
  C6. The window of the store is 900 seconds whatever window the limiter is configured
  with: the first hit sets the key to expire 900000 ms later. With a configured window of
  60 seconds and a limit of one hit, hits at 0 s, 1 s and 61 s are answered allowed,
  rejected, rejected: the hit after the configured window has elapsed is still counted in
  the old window. With the window configured as 900 seconds, the hit at 900 s starts a
  fresh window and is allowed. The reset time reported with a hit is always 900 seconds
  after that hit, not the expiry of the window.
\<close>

theorem store_window_ignores_windowMs:
  "map_option snd (snd (incr Map.empty 0 ''rate_limit:10.0.0.1'') ''rate_limit:10.0.0.1'')
     = Some (Some 900000)
   \<and> resetTime (fst (incr (snd (incr Map.empty 0 ''rate_limit:10.0.0.1'')) 1000 ''rate_limit:10.0.0.1''))
     = 901000
   \<and> hits 60000 1 Map.empty
        [(0, \<lparr> ip = ''10.0.0.1'', authorization = None \<rparr>),
         (1000, \<lparr> ip = ''10.0.0.1'', authorization = None \<rparr>),
         (61000, \<lparr> ip = ''10.0.0.1'', authorization = None \<rparr>)]
     = [True, False, False]
   \<and> hits 900000 1 Map.empty
        [(0, \<lparr> ip = ''10.0.0.1'', authorization = None \<rparr>),
         (1000, \<lparr> ip = ''10.0.0.1'', authorization = None \<rparr>),
         (900000, \<lparr> ip = ''10.0.0.1'', authorization = None \<rparr>)]
     = [True, False, True]"
  by (simp add: keyGenerator_def rateLimiter_def incr_def redisIncr_def redisExpire_def redisGet_def)

end
